theory Spec2Isabelle
  imports Complex_Main
begin

section \<open>Values, errors and the data model\<close>

text \<open>
  The timeline pipeline of \<^verbatim>\<open>process_videos.py\<close>,
  \<^verbatim>\<open>activity_card_merger.py\<close> and \<^verbatim>\<open>process_dummy_observations.py\<close>.

  Python values that come out of \<^verbatim>\<open>json.loads\<close> are untyped, and the code stores them
  in the fields of its dataclasses without a check, so the fields that may hold such a value
  have the type \<open>json\<close> here. Strings are ASCII. The float of an epoch instant or a
  duration is the real number it denotes (finite; rounding of float addition is not modelled).
  Logging, printing and the debug files written next to each call are left out.
\<close>

datatype json =
    JNull
  | JBool bool
  | JInt int
  | JFloat real
  | JStr string
  | JArr "json list"
  | JObj "(string \<times> json) list"

text \<open>Python's truth value of a JSON value (\<^verbatim>\<open>if x:\<close>).\<close>

fun truthy :: "json \<Rightarrow> bool" where
  "truthy JNull = False"
| "truthy (JBool b) = b"
| "truthy (JInt i) = (i \<noteq> 0)"
| "truthy (JFloat r) = (r \<noteq> 0)"
| "truthy (JStr s) = (s \<noteq> [])"
| "truthy (JArr xs) = (xs \<noteq> [])"
| "truthy (JObj kvs) = (kvs \<noteq> [])"

text \<open>
  The exceptions the modelled code can meet, each with its message (\<^verbatim>\<open>str(e)\<close>).
  All of them are subclasses of \<^verbatim>\<open>Exception\<close>. The messages the repository writes
  itself are exact; those of the interpreter are shortened.
\<close>

datatype exn =
    RequestException string
  | ValueError string
  | TypeError string
  | KeyError string
  | IndexError string
  | AttributeError string

fun exn_str :: "exn \<Rightarrow> string" where
  "exn_str (RequestException m) = m"
| "exn_str (ValueError m) = m"
| "exn_str (TypeError m) = m"
| "exn_str (KeyError k) = [CHR 0x27] @ k @ [CHR 0x27]"
| "exn_str (IndexError m) = m"
| "exn_str (AttributeError m) = m"

record Observation =
  start_ts :: int
  end_ts :: int
  observation :: json
  metadata :: "(string \<times> json) list option"

record ActivityCard =
  start_time :: json
  end_time :: json
  category :: json
  title :: json
  summary :: json

text \<open>
  A prompt is a fixed template with values interpolated; it is represented by the template's
  name and the interpolated values.
\<close>

datatype prompt =
    SegmentPrompt "(real \<times> string) list" real
  | CardPrompt "Observation list"
  | ContextCardPrompt "Observation list" "ActivityCard list" "Observation list"
  | MergeCheckPrompt ActivityCard ActivityCard
  | FusePrompt ActivityCard ActivityCard

text \<open>\<^verbatim>\<open>LLMCall\<close> without its wall-clock fields \<^verbatim>\<open>timestamp\<close> and \<^verbatim>\<open>latency\<close>.\<close>

record LLMCall =
  call_input :: prompt
  call_output :: string
  call_error :: "string option"

text \<open>
  The state of a \<^verbatim>\<open>VideoProcessor\<close>: its model name, its call log, and the number of
  requests it has sent to the inference service so far.
\<close>

record VideoProcessor =
  model :: string
  llm_calls :: "LLMCall list"
  sent :: nat

text \<open>
  What the code takes from outside the repository: the inference service behind
  \<^verbatim>\<open>_call_ollama\<close> (its answer may depend on how many requests came before, and it may
  raise), \<^verbatim>\<open>json.loads\<close> (\<open>None\<close> is \<^verbatim>\<open>JSONDecodeError\<close>), the built-in
  \<^verbatim>\<open>int\<close> on a string (\<open>None\<close> is \<^verbatim>\<open>ValueError\<close>), \<^verbatim>\<open>str\<close> of a value inside an
  f-string, and \<^verbatim>\<open>datetime.fromtimestamp(t).strftime("%-I:%M %p")\<close>, which raises
  on an instant outside the years the platform can show.
\<close>

record env =
  infer :: "nat \<Rightarrow> prompt \<Rightarrow> exn + string"
  json_loads :: "string \<Rightarrow> json option"
  int_of_str :: "string \<Rightarrow> int option"
  py_str :: "json \<Rightarrow> string"
  fmt_time :: "int \<Rightarrow> exn + string"

section \<open>String operations\<close>

text \<open>\<^verbatim>\<open>s.split(c)\<close> for a one-character separator.\<close>

fun split_on :: "char \<Rightarrow> string \<Rightarrow> string list" where
  "split_on c [] = [[]]"
| "split_on c (x # xs) =
     (if x = c then [] # split_on c xs
      else (case split_on c xs of
              [] \<Rightarrow> [[x]]
            | p # ps \<Rightarrow> (x # p) # ps))"

text \<open>\<^verbatim>\<open>k in s\<close> on strings.\<close>

fun starts_with :: "string \<Rightarrow> string \<Rightarrow> bool" where
  "starts_with [] s = True"
| "starts_with (k # ks) [] = False"
| "starts_with (k # ks) (c # cs) = (k = c \<and> starts_with ks cs)"

fun contains :: "string \<Rightarrow> string \<Rightarrow> bool" where
  "contains k [] = (k = [])"
| "contains k (c # cs) = (starts_with k (c # cs) \<or> contains k cs)"

text \<open>\<^verbatim>\<open>s.lower()\<close> on ASCII.\<close>

definition lower_char :: "char \<Rightarrow> char" where
  "lower_char c =
     (let n = (of_char c :: nat) in if 65 \<le> n \<and> n \<le> 90 then char_of (n + 32) else c)"

definition lower :: "string \<Rightarrow> string" where
  "lower s = map lower_char s"

text \<open>\<^verbatim>\<open>s.strip()\<close>: ASCII white space is removed at both ends.\<close>

definition is_space :: "char \<Rightarrow> bool" where
  "is_space c = ((of_char c :: nat) \<in> {9, 10, 11, 12, 13, 28, 29, 30, 31, 32})"

definition strip :: "string \<Rightarrow> string" where
  "strip s = rev (dropWhile is_space (rev (dropWhile is_space s)))"

text \<open>\<^verbatim>\<open>s.find(c)\<close> and \<^verbatim>\<open>s.rfind(c)\<close>: \<open>None\<close> is the result \<open>-1\<close>.\<close>

fun find_char :: "char \<Rightarrow> string \<Rightarrow> nat option" where
  "find_char c [] = None"
| "find_char c (x # xs) =
     (if x = c then Some 0 else map_option Suc (find_char c xs))"

definition rfind_char :: "char \<Rightarrow> string \<Rightarrow> nat option" where
  "rfind_char c s =
     (case find_char c (rev s) of
        None \<Rightarrow> None
      | Some i \<Rightarrow> Some (length s - 1 - i))"

text \<open>\<^verbatim>\<open>s[a:b]\<close> for indices \<open>0 \<le> a\<close> and \<open>0 \<le> b\<close>.\<close>

definition slice :: "string \<Rightarrow> nat \<Rightarrow> nat \<Rightarrow> string" where
  "slice s a b = drop a (take b s)"

section \<open>Timestamps and the response parser\<close>

text \<open>
  \<^verbatim>\<open>_parse_timestamp\<close>. The argument is whatever the response held; only a string has
  \<^verbatim>\<open>split\<close>. \<^verbatim>\<open>map(int, parts)\<close> is unpacked left to right, so the first field that is
  not an integer raises.
\<close>

definition int_field :: "env \<Rightarrow> string \<Rightarrow> exn + int" where
  "int_field E p =
     (case int_of_str E p of
        None \<Rightarrow>
          Inl (ValueError (''invalid literal for int() with base 10: '' @
                 [CHR 0x27] @ p @ [CHR 0x27]))
      | Some n \<Rightarrow> Inr n)"

fun int_fields :: "env \<Rightarrow> string list \<Rightarrow> exn + int list" where
  "int_fields E [] = Inr []"
| "int_fields E (p # ps) =
     (case int_field E p of
        Inl e \<Rightarrow> Inl e
      | Inr n \<Rightarrow> (case int_fields E ps of Inl e \<Rightarrow> Inl e | Inr ns \<Rightarrow> Inr (n # ns)))"

definition parse_timestamp_str :: "env \<Rightarrow> string \<Rightarrow> exn + int" where
  "parse_timestamp_str E timestamp =
     (let parts = split_on CHR '':'' timestamp in
      if length parts = 2 then
        (case int_fields E parts of
           Inl e \<Rightarrow> Inl e
         | Inr ns \<Rightarrow> Inr ((ns ! 0) * 60 + (ns ! 1)))
      else if length parts = 3 then
        (case int_fields E parts of
           Inl e \<Rightarrow> Inl e
         | Inr ns \<Rightarrow> Inr ((ns ! 0) * 3600 + (ns ! 1) * 60 + (ns ! 2)))
      else Inl (ValueError (''Invalid timestamp format: '' @ timestamp)))"

fun parse_timestamp :: "env \<Rightarrow> json \<Rightarrow> exn + int" where
  "parse_timestamp E (JStr s) = parse_timestamp_str E s"
| "parse_timestamp E v = Inl (AttributeError ''object has no attribute split'')"

text \<open>
  \<^verbatim>\<open>_parse_json_from_response\<close>. \<^verbatim>\<open>expected_type\<close> is \<^verbatim>\<open>list\<close> or \<^verbatim>\<open>dict\<close> at every
  call site, or absent.
\<close>

datatype expected = ExpList | ExpDict

fun isinstance :: "json \<Rightarrow> expected \<Rightarrow> bool" where
  "isinstance (JArr xs) ExpList = True"
| "isinstance (JObj kvs) ExpDict = True"
| "isinstance v t = False"

text \<open>The names of the types in the message of the type check.\<close>

fun type_name :: "json \<Rightarrow> string" where
  "type_name JNull = ''NoneType''"
| "type_name (JBool b) = ''bool''"
| "type_name (JInt i) = ''int''"
| "type_name (JFloat r) = ''float''"
| "type_name (JStr s) = ''str''"
| "type_name (JArr xs) = ''list''"
| "type_name (JObj kvs) = ''dict''"

fun expected_name :: "expected \<Rightarrow> string" where
  "expected_name ExpList = ''list''"
| "expected_name ExpDict = ''dict''"

definition class_repr :: "string \<Rightarrow> string" where
  "class_repr n = ''<class '' @ [CHR 0x27] @ n @ [CHR 0x27] @ ''>''"

definition bracketed :: "char \<Rightarrow> char \<Rightarrow> string \<Rightarrow> string option" where
  "bracketed l r response =
     (case (find_char l response, rfind_char r response) of
        (Some start_idx, Some end_idx) \<Rightarrow> Some (slice response start_idx (end_idx + 1))
      | _ \<Rightarrow> None)"

definition find_object :: "env \<Rightarrow> string \<Rightarrow> expected option \<Rightarrow> exn + json" where
  "find_object E response expected_type =
     (case Option.bind (bracketed CHR ''{'' CHR ''}'' response) (json_loads E) of
        Some data \<Rightarrow> Inr (if expected_type = Some ExpList then JArr [data] else data)
      | None \<Rightarrow>
          Inl (ValueError (''Could not parse JSON from response: '' @ take 200 response @ ''...'')))"

definition find_array :: "env \<Rightarrow> string \<Rightarrow> expected option \<Rightarrow> exn + json" where
  "find_array E response expected_type =
     (if expected_type = Some ExpList then
        (case Option.bind (bracketed CHR ''['' CHR '']'' response) (json_loads E) of
           Some data \<Rightarrow> Inr data
         | None \<Rightarrow> find_object E response expected_type)
      else find_object E response expected_type)"

definition parse_json_from_response :: "env \<Rightarrow> string \<Rightarrow> expected option \<Rightarrow> exn + json" where
  "parse_json_from_response E response expected_type =
     (case json_loads E response of
        Some data \<Rightarrow>
          (case expected_type of
             None \<Rightarrow> Inr data
           | Some t \<Rightarrow>
               if isinstance data t then Inr data
               else Inl (ValueError (''Expected '' @ class_repr (expected_name t) @
                                      '', got '' @ class_repr (type_name data))))
      | None \<Rightarrow> find_array E (strip response) expected_type)"

text \<open>\<^verbatim>\<open>_call_ollama\<close>: one request to the service; it answers with text or raises.\<close>

definition call_ollama :: "env \<Rightarrow> VideoProcessor \<Rightarrow> prompt \<Rightarrow> (exn + string) \<times> VideoProcessor" where
  "call_ollama E self p = (infer E (sent self) p, self\<lparr>sent := Suc (sent self)\<rparr>)"

section \<open>Operations on untyped values\<close>

text \<open>\<^verbatim>\<open>v[k]\<close> with a string key, \<^verbatim>\<open>v.get(k, d)\<close>, and \<^verbatim>\<open>for x in v\<close>.\<close>

fun getitem :: "json \<Rightarrow> string \<Rightarrow> exn + json" where
  "getitem (JObj kvs) k = (case map_of kvs k of None \<Rightarrow> Inl (KeyError k) | Some v \<Rightarrow> Inr v)"
| "getitem v k = Inl (TypeError ''indices must be integers or object is not subscriptable'')"

fun dict_get :: "json \<Rightarrow> string \<Rightarrow> json \<Rightarrow> exn + json" where
  "dict_get (JObj kvs) k d = Inr (case map_of kvs k of None \<Rightarrow> d | Some v \<Rightarrow> v)"
| "dict_get v k d = Inl (AttributeError ''object has no attribute get'')"

fun iter_items :: "json \<Rightarrow> exn + json list" where
  "iter_items (JArr xs) = Inr xs"
| "iter_items (JObj kvs) = Inr (map (\<lambda>kv. JStr (fst kv)) kvs)"
| "iter_items (JStr s) = Inr (map (\<lambda>c. JStr [c]) s)"
| "iter_items v = Inl (TypeError ''object is not iterable'')"

text \<open>\<^verbatim>\<open>int(x)\<close> on a float: truncation towards zero.\<close>

definition py_trunc :: "real \<Rightarrow> int" where
  "py_trunc x = (if 0 \<le> x then \<lfloor>x\<rfloor> else \<lceil>x\<rceil>)"

text \<open>A value inside an f-string.\<close>

definition fstr :: "env \<Rightarrow> json \<Rightarrow> string" where
  "fstr E v = (case v of JStr s \<Rightarrow> s | _ \<Rightarrow> py_str E v)"

section \<open>Segment Merger\<close>

text \<open>
  The body of the loop of \<^verbatim>\<open>_merge_frame_descriptions\<close> for one segment. \<open>T0\<close> is
  \<^verbatim>\<open>batch_start_time.timestamp()\<close>.
\<close>

definition segment_observation :: "env \<Rightarrow> VideoProcessor \<Rightarrow> real \<Rightarrow> json \<Rightarrow> exn + Observation" where
  "segment_observation E self T0 segment =
     (case getitem segment ''startTimestamp'' of
        Inl e \<Rightarrow> Inl e
      | Inr a \<Rightarrow>
     (case parse_timestamp E a of
        Inl e \<Rightarrow> Inl e
      | Inr start_seconds \<Rightarrow>
     (case getitem segment ''endTimestamp'' of
        Inl e \<Rightarrow> Inl e
      | Inr b \<Rightarrow>
     (case parse_timestamp E b of
        Inl e \<Rightarrow> Inl e
      | Inr end_seconds \<Rightarrow>
     (case getitem segment ''description'' of
        Inl e \<Rightarrow> Inl e
      | Inr d \<Rightarrow>
          Inr \<lparr>start_ts = py_trunc (T0 + of_int start_seconds),
               end_ts = py_trunc (T0 + of_int end_seconds),
               observation = d,
               metadata = Some [(''model'', JStr (model self))]\<rparr>)))))"

fun segment_observations :: "env \<Rightarrow> VideoProcessor \<Rightarrow> real \<Rightarrow> json list \<Rightarrow> exn + Observation list" where
  "segment_observations E self T0 [] = Inr []"
| "segment_observations E self T0 (segment # rest) =
     (case segment_observation E self T0 segment of
        Inl e \<Rightarrow> Inl e
      | Inr ob \<Rightarrow>
          (case segment_observations E self T0 rest of
             Inl e \<Rightarrow> Inl e
           | Inr obs \<Rightarrow> Inr (ob # obs)))"

text \<open>What the \<^verbatim>\<open>try\<close> block does with the answer of the service.\<close>

definition merge_response :: "env \<Rightarrow> VideoProcessor \<Rightarrow> real \<Rightarrow> string \<Rightarrow> exn + Observation list" where
  "merge_response E self T0 response =
     (case parse_json_from_response E response (Some ExpList) of
        Inl e \<Rightarrow> Inl e
      | Inr segments \<Rightarrow>
          (case iter_items segments of
             Inl e \<Rightarrow> Inl e
           | Inr segs \<Rightarrow> segment_observations E self T0 segs))"

definition merge_fallback :: "real \<Rightarrow> real \<Rightarrow> exn \<Rightarrow> Observation" where
  "merge_fallback T0 video_duration e =
     \<lparr>start_ts = py_trunc T0,
      end_ts = py_trunc (T0 + video_duration),
      observation = JStr ''Failed to merge frame descriptions'',
      metadata = Some [(''error'', JStr (exn_str e))]\<rparr>"

definition log_call :: "VideoProcessor \<Rightarrow> prompt \<Rightarrow> string \<Rightarrow> string option \<Rightarrow> VideoProcessor" where
  "log_call self p out err =
     self\<lparr>llm_calls := llm_calls self @ [\<lparr>call_input = p, call_output = out, call_error = err\<rparr>]\<rparr>"

definition merge_frame_descriptions ::
  "env \<Rightarrow> VideoProcessor \<Rightarrow> (real \<times> string) list \<Rightarrow> real \<Rightarrow> real \<Rightarrow> Observation list \<times> VideoProcessor" where
  "merge_frame_descriptions E self frame_descriptions T0 video_duration =
     (let merge_prompt = SegmentPrompt frame_descriptions video_duration;
          (r, self1) = call_ollama E self merge_prompt
      in case r of
           Inl e \<Rightarrow>
             ([merge_fallback T0 video_duration e],
              log_call self1 merge_prompt [] (Some (exn_str e)))
         | Inr response \<Rightarrow>
             (case merge_response E self1 T0 response of
                Inl e \<Rightarrow>
                  ([merge_fallback T0 video_duration e],
                   log_call self1 merge_prompt [] (Some (exn_str e)))
              | Inr observations \<Rightarrow>
                  (observations, log_call self1 merge_prompt response None)))"

section \<open>Card Generator\<close>

text \<open>
  The transcript loop, which both generators run before their \<^verbatim>\<open>try\<close>: the start and
  the end of every observation are formatted, in this order, and an instant that cannot be
  formatted raises out of the generator.
\<close>

fun format_observations :: "env \<Rightarrow> Observation list \<Rightarrow> exn + string list" where
  "format_observations E [] = Inr []"
| "format_observations E (obs # rest) =
     (case fmt_time E (start_ts obs) of
        Inl e \<Rightarrow> Inl e
      | Inr s \<Rightarrow>
     (case fmt_time E (end_ts obs) of
        Inl e \<Rightarrow> Inl e
      | Inr t \<Rightarrow>
     (case format_observations E rest of
        Inl e \<Rightarrow> Inl e
      | Inr transcript_lines \<Rightarrow>
          Inr ((''['' @ s @ '' - '' @ t @ '']: '' @ fstr E (observation obs)) #
               transcript_lines))))"

text \<open>
  \<^verbatim>\<open>card_start_time\<close> and \<^verbatim>\<open>card_end_time\<close>: the formatted start of
  \<^verbatim>\<open>observations[0]\<close> and the formatted end of \<^verbatim>\<open>observations[-1]\<close>.
\<close>

definition card_times :: "env \<Rightarrow> Observation list \<Rightarrow> exn + string \<times> string" where
  "card_times E observations =
     (if observations = [] then Inl (IndexError ''list index out of range'')
      else
        (case fmt_time E (start_ts (hd observations)) of
           Inl e \<Rightarrow> Inl e
         | Inr card_start_time \<Rightarrow>
             (case fmt_time E (end_ts (last observations)) of
                Inl e \<Rightarrow> Inl e
              | Inr card_end_time \<Rightarrow> Inr (card_start_time, card_end_time))))"

definition fallback_card :: "string \<Rightarrow> string \<Rightarrow> ActivityCard" where
  "fallback_card card_start_time card_end_time =
     \<lparr>start_time = JStr card_start_time,
      end_time = JStr card_end_time,
      category = JStr ''Work'',
      title = JStr ''Activity Session'',
      summary = JStr ''User engaged in various activities.''\<rparr>"

text \<open>
  The \<^verbatim>\<open>try\<close> block of \<^verbatim>\<open>_generate_activity_cards\<close> after the call: the answer is
  parsed, then the two times of the card are formatted, then the title and the summary are
  looked up.
\<close>

definition card_response :: "env \<Rightarrow> Observation list \<Rightarrow> string \<Rightarrow> exn + ActivityCard list" where
  "card_response E observations response =
     (case parse_json_from_response E response (Some ExpDict) of
        Inl e \<Rightarrow> Inl e
      | Inr result_data \<Rightarrow>
     (case card_times E observations of
        Inl e \<Rightarrow> Inl e
      | Inr (card_start_time, card_end_time) \<Rightarrow>
     (case dict_get result_data ''title'' (JStr ''Activity Session'') of
        Inl e \<Rightarrow> Inl e
      | Inr t \<Rightarrow>
     (case dict_get result_data ''summary'' (JStr ''User engaged in various activities.'') of
        Inl e \<Rightarrow> Inl e
      | Inr s \<Rightarrow>
          Inr [\<lparr>start_time = JStr card_start_time,
                end_time = JStr card_end_time,
                category = JStr ''Work'',
                title = t,
                summary = s\<rparr>]))))"

text \<open>
  The handler of \<^verbatim>\<open>_generate_activity_cards\<close> logs the error and then formats the two
  times again: what raises there (an empty list, an instant that cannot be formatted) leaves
  the generator.
\<close>

definition card_handler :: "env \<Rightarrow> Observation list \<Rightarrow> exn + ActivityCard list" where
  "card_handler E observations =
     (case card_times E observations of
        Inl e \<Rightarrow> Inl e
      | Inr (card_start_time, card_end_time) \<Rightarrow>
          Inr [fallback_card card_start_time card_end_time])"

definition generate_activity_cards ::
  "env \<Rightarrow> VideoProcessor \<Rightarrow> Observation list \<Rightarrow> (exn + ActivityCard list) \<times> VideoProcessor" where
  "generate_activity_cards E self observations =
     (case format_observations E observations of
        Inl e \<Rightarrow> (Inl e, self)
      | Inr transcript_lines \<Rightarrow>
          (let activity_prompt = CardPrompt observations;
               (r, self1) = call_ollama E self activity_prompt
           in case r of
                Inl e \<Rightarrow>
                  (card_handler E observations,
                   log_call self1 activity_prompt [] (Some (exn_str e)))
              | Inr response \<Rightarrow>
                  (case card_response E observations response of
                     Inl e \<Rightarrow>
                       (card_handler E observations,
                        log_call self1 activity_prompt [] (Some (exn_str e)))
                   | Inr cards \<Rightarrow>
                       (Inr cards, log_call self1 activity_prompt response None))))"

text \<open>\<^verbatim>\<open>_generate_activity_cards_with_context\<close>: every field of a card is read from the answer.\<close>

definition card_of_data :: "json \<Rightarrow> exn + ActivityCard" where
  "card_of_data card_data =
     (case getitem card_data ''startTime'' of
        Inl e \<Rightarrow> Inl e
      | Inr st \<Rightarrow>
     (case getitem card_data ''endTime'' of
        Inl e \<Rightarrow> Inl e
      | Inr en \<Rightarrow>
     (case getitem card_data ''category'' of
        Inl e \<Rightarrow> Inl e
      | Inr ca \<Rightarrow>
     (case getitem card_data ''title'' of
        Inl e \<Rightarrow> Inl e
      | Inr ti \<Rightarrow>
     (case getitem card_data ''summary'' of
        Inl e \<Rightarrow> Inl e
      | Inr su \<Rightarrow>
          Inr \<lparr>start_time = st, end_time = en, category = ca, title = ti, summary = su\<rparr>)))))"

fun cards_of_data :: "json list \<Rightarrow> exn + ActivityCard list" where
  "cards_of_data [] = Inr []"
| "cards_of_data (card_data # rest) =
     (case card_of_data card_data of
        Inl e \<Rightarrow> Inl e
      | Inr crd \<Rightarrow>
          (case cards_of_data rest of
             Inl e \<Rightarrow> Inl e
           | Inr cards \<Rightarrow> Inr (crd # cards)))"

definition context_response :: "env \<Rightarrow> string \<Rightarrow> exn + ActivityCard list" where
  "context_response E response =
     (case parse_json_from_response E response (Some ExpList) of
        Inl e \<Rightarrow> Inl e
      | Inr cards_data \<Rightarrow>
          (case iter_items cards_data of
             Inl e \<Rightarrow> Inl e
           | Inr items \<Rightarrow> cards_of_data items))"

text \<open>
  Before its \<^verbatim>\<open>try\<close> the context-aware generator formats the context observations (the
  loop runs when there are some) and then the observations of the chunk.
\<close>

definition generate_activity_cards_with_context ::
  "env \<Rightarrow> VideoProcessor \<Rightarrow> Observation list \<Rightarrow> Observation list \<Rightarrow> ActivityCard list \<Rightarrow>
     (exn + ActivityCard list) \<times> VideoProcessor" where
  "generate_activity_cards_with_context E self observations context_observations context_cards =
     (case format_observations E context_observations of
        Inl e \<Rightarrow> (Inl e, self)
      | Inr context_lines \<Rightarrow>
     (case format_observations E observations of
        Inl e \<Rightarrow> (Inl e, self)
      | Inr transcript_lines \<Rightarrow>
          (let activity_prompt =
                 ContextCardPrompt context_observations context_cards observations;
               (r, self1) = call_ollama E self activity_prompt
           in case r of
                Inl e \<Rightarrow> (card_handler E observations, self1)
              | Inr response \<Rightarrow>
                  (case context_response E response of
                     Inl e \<Rightarrow> (card_handler E observations, self1)
                   | Inr cards \<Rightarrow> (Inr cards, self1)))))"

section \<open>Card Consolidation Engine\<close>

definition distraction_keywords :: "string list" where
  "distraction_keywords =
     [''youtube'', ''instagram'', ''twitter'', ''reddit'', ''facebook'',
      ''cat video'', ''dog video'', ''social media'', ''took a break'',
      ''watched'', ''scrolled'', ''distracted'']"

text \<open>
  \<^verbatim>\<open>(P.title + P.summary + N.title + N.summary).lower()\<close>: defined when the four values are
  strings; on other values either \<^verbatim>\<open>+\<close> or \<^verbatim>\<open>.lower\<close> raises (a \<^verbatim>\<open>TypeError\<close> or an
  \<^verbatim>\<open>AttributeError\<close>, shown as one error here).
\<close>

definition combined_text :: "ActivityCard \<Rightarrow> ActivityCard \<Rightarrow> exn + string" where
  "combined_text previous_card new_card =
     (case (title previous_card, summary previous_card, title new_card, summary new_card) of
        (JStr a, JStr b, JStr c, JStr d) \<Rightarrow> Inr (lower (a @ b @ c @ d))
      | _ \<Rightarrow> Inl (TypeError ''unsupported operand or no attribute lower''))"

definition merge_check_response :: "env \<Rightarrow> string \<Rightarrow> exn + json" where
  "merge_check_response E response =
     (case parse_json_from_response E response (Some ExpDict) of
        Inl e \<Rightarrow> Inl e
      | Inr result \<Rightarrow> dict_get result ''combine'' (JBool False))"

definition should_merge_cards ::
  "env \<Rightarrow> VideoProcessor \<Rightarrow> ActivityCard \<Rightarrow> ActivityCard \<Rightarrow> (exn + json) \<times> VideoProcessor" where
  "should_merge_cards E self previous_card new_card =
     (case combined_text previous_card new_card of
        Inl e \<Rightarrow> (Inl e, self)
      | Inr text \<Rightarrow>
          if list_ex (\<lambda>keyword. contains keyword text) distraction_keywords
          then (Inr (JBool False), self)
          else
            (let (r, self1) = call_ollama E self (MergeCheckPrompt previous_card new_card)
             in case r of
                  Inl e \<Rightarrow> (Inr (JBool False), self1)
                | Inr response \<Rightarrow>
                    (case merge_check_response E response of
                       Inl e \<Rightarrow> (Inr (JBool False), self1)
                     | Inr should_combine \<Rightarrow> (Inr should_combine, self1))))"

definition fuse_response :: "env \<Rightarrow> ActivityCard \<Rightarrow> ActivityCard \<Rightarrow> string \<Rightarrow> exn + ActivityCard" where
  "fuse_response E previous_card new_card response =
     (case parse_json_from_response E response (Some ExpDict) of
        Inl e \<Rightarrow> Inl e
      | Inr result \<Rightarrow>
     (case dict_get result ''title''
             (JStr (fstr E (title previous_card) @ '' and '' @ fstr E (title new_card))) of
        Inl e \<Rightarrow> Inl e
      | Inr t \<Rightarrow>
     (case dict_get result ''summary''
             (JStr (fstr E (summary previous_card) @ '' '' @ fstr E (summary new_card))) of
        Inl e \<Rightarrow> Inl e
      | Inr s \<Rightarrow>
          Inr \<lparr>start_time = start_time previous_card,
               end_time = end_time new_card,
               category = category previous_card,
               title = t,
               summary = s\<rparr>)))"

definition fuse_fallback :: "env \<Rightarrow> ActivityCard \<Rightarrow> ActivityCard \<Rightarrow> ActivityCard" where
  "fuse_fallback E previous_card new_card =
     \<lparr>start_time = start_time previous_card,
      end_time = end_time new_card,
      category = category previous_card,
      title = title previous_card,
      summary = JStr (fstr E (summary previous_card) @ '' Continued with '' @
                      fstr E (summary new_card))\<rparr>"

definition merge_two_cards ::
  "env \<Rightarrow> VideoProcessor \<Rightarrow> ActivityCard \<Rightarrow> ActivityCard \<Rightarrow> ActivityCard \<times> VideoProcessor" where
  "merge_two_cards E self previous_card new_card =
     (let (r, self1) = call_ollama E self (FusePrompt previous_card new_card)
      in case r of
           Inl e \<Rightarrow> (fuse_fallback E previous_card new_card, self1)
         | Inr response \<Rightarrow>
             (case fuse_response E previous_card new_card response of
                Inl e \<Rightarrow> (fuse_fallback E previous_card new_card, self1)
              | Inr crd \<Rightarrow> (crd, self1)))"

section \<open>Chunk Scheduler and the two drivers\<close>

text \<open>The selection of one window, the same comprehension in both drivers.\<close>

definition chunk_observations :: "Observation list \<Rightarrow> int \<Rightarrow> int \<Rightarrow> Observation list" where
  "chunk_observations all_observations chunk_start chunk_end =
     filter (\<lambda>obs. start_ts obs < chunk_end \<and> end_ts obs > chunk_start) all_observations"

text \<open>
  The stream is a list of JSON records with the keys of an \<^verbatim>\<open>Observation\<close>; a record
  without \<^verbatim>\<open>metadata\<close> gets the empty dictionary.
\<close>

definition to_observation :: "Observation \<Rightarrow> Observation" where
  "to_observation obs = obs\<lparr>metadata := Some (case metadata obs of None \<Rightarrow> [] | Some m \<Rightarrow> m)\<rparr>"

text \<open>
  \<^verbatim>\<open>process_with_merging\<close>: the variables of its loop, and the consolidation of one new
  card. An \<^verbatim>\<open>ActivityCard\<close> object is always true, so \<^verbatim>\<open>if previous_card:\<close> asks whether
  there is one.
\<close>

record merge_state =
  final_cards :: "ActivityCard list"
  previous_card :: "ActivityCard option"
  processor :: VideoProcessor

definition consolidate :: "env \<Rightarrow> merge_state \<Rightarrow> ActivityCard \<Rightarrow> exn + merge_state" where
  "consolidate E st new_card =
     (case previous_card st of
        None \<Rightarrow>
          Inr (st\<lparr>final_cards := final_cards st @ [new_card], previous_card := Some new_card\<rparr>)
      | Some prev \<Rightarrow>
          (case should_merge_cards E (processor st) prev new_card of
             (Inl e, p1) \<Rightarrow> Inl e
           | (Inr decision, p1) \<Rightarrow>
               if truthy decision then
                 (let (merged_card, p2) = merge_two_cards E p1 prev new_card
                  in if final_cards st \<noteq> [] \<and> last (final_cards st) = prev
                     then Inr \<lparr>final_cards =
                                 (final_cards st)[length (final_cards st) - 1 := merged_card],
                               previous_card = Some merged_card,
                               processor = p2\<rparr>
                     else Inr \<lparr>final_cards = final_cards st @ [merged_card],
                               previous_card = Some merged_card,
                               processor = p2\<rparr>)
               else Inr \<lparr>final_cards = final_cards st @ [new_card],
                         previous_card = Some new_card,
                         processor = p1\<rparr>))"

text \<open>
  Both drivers print the window with \<^verbatim>\<open>datetime.fromtimestamp\<close> of its two ends; of the
  printing only this is kept, since it raises where \<open>fmt_time\<close> does.
\<close>

definition print_window :: "env \<Rightarrow> int \<Rightarrow> int \<Rightarrow> exn option" where
  "print_window E chunk_start chunk_end =
     (case fmt_time E chunk_start of
        Inl e \<Rightarrow> Some e
      | Inr s \<Rightarrow> (case fmt_time E chunk_end of Inl e \<Rightarrow> Some e | Inr t \<Rightarrow> None))"

definition merging_body :: "env \<Rightarrow> Observation list \<Rightarrow> int \<Rightarrow> merge_state \<Rightarrow> exn + merge_state" where
  "merging_body E all_observations chunk_start st =
     (let chunk_end = chunk_start + 15 * 60;
          chunk_obs = chunk_observations all_observations chunk_start chunk_end
      in if chunk_obs = [] then Inr st
         else
           (case print_window E chunk_start chunk_end of
              Some e \<Rightarrow> Inl e
            | None \<Rightarrow>
           (case generate_activity_cards E (processor st) (map to_observation chunk_obs) of
              (Inl e, p) \<Rightarrow> Inl e
            | (Inr cards, p) \<Rightarrow>
                (case cards of
                   [] \<Rightarrow> Inr (st\<lparr>processor := p\<rparr>)
                 | new_card # _ \<Rightarrow> consolidate E (st\<lparr>processor := p\<rparr>) new_card))))"

function merging_loop ::
  "env \<Rightarrow> Observation list \<Rightarrow> int \<Rightarrow> int \<Rightarrow> merge_state \<Rightarrow> exn + merge_state" where
  "merging_loop E all_observations stream_end chunk_start st =
     (if chunk_start < stream_end then
        (case merging_body E all_observations chunk_start st of
           Inl e \<Rightarrow> Inl e
         | Inr st' \<Rightarrow> merging_loop E all_observations stream_end (chunk_start + 15 * 60) st')
      else Inr st)"
  by pat_completeness auto
termination
  by (relation "measure (\<lambda>(E, all_observations, stream_end, chunk_start, st).
                  nat (stream_end - chunk_start))") auto

definition new_processor :: VideoProcessor where
  "new_processor = \<lparr>model = ''google/gemma-3n-e4b'', llm_calls = [], sent = 0\<rparr>"

definition process_with_merging :: "env \<Rightarrow> Observation list \<Rightarrow> exn + merge_state" where
  "process_with_merging E observations =
     (let all_observations = sort_key start_ts observations
      in if all_observations = [] then Inl (IndexError ''list index out of range'')
         else merging_loop E all_observations
                (end_ts (last all_observations)) (start_ts (hd all_observations))
                \<lparr>final_cards = [], previous_card = None, processor = new_processor\<rparr>)"

text \<open>
  \<^verbatim>\<open>process_observations_in_chunks\<close>. The chunk length is a parameter, and with a length
  that is not positive the loop does not end: \<open>None\<close> is that case.
\<close>

record chunk_state =
  all_cards :: "ActivityCard list"
  chunk_processor :: VideoProcessor

definition chunk_body ::
  "env \<Rightarrow> Observation list \<Rightarrow> int \<Rightarrow> int \<Rightarrow> int \<Rightarrow> chunk_state \<Rightarrow> exn + chunk_state" where
  "chunk_body E observations chunk_duration_minutes context_duration_minutes chunk_start st =
     (let chunk_end = chunk_start + chunk_duration_minutes * 60;
          chunk_obs = chunk_observations observations chunk_start chunk_end
      in if chunk_obs = [] then Inr st
         else
           (let context_start = chunk_start - context_duration_minutes * 60;
                context_observations =
                  filter (\<lambda>obs. start_ts obs \<ge> context_start \<and> end_ts obs \<le> chunk_start)
                    observations;
                context_cards = filter (\<lambda>c. truthy (start_time c)) (all_cards st)
            in case print_window E chunk_start chunk_end of
                 Some e \<Rightarrow> Inl e
               | None \<Rightarrow>
                   (case generate_activity_cards_with_context E (chunk_processor st)
                           (map to_observation chunk_obs) context_observations context_cards of
                      (Inl e, p) \<Rightarrow> Inl e
                    | (Inr cards, p) \<Rightarrow>
                        Inr \<lparr>all_cards = all_cards st @ cards, chunk_processor = p\<rparr>)))"

partial_function (option) chunk_loop ::
  "env \<Rightarrow> Observation list \<Rightarrow> int \<Rightarrow> int \<Rightarrow> int \<Rightarrow> int \<Rightarrow> chunk_state \<Rightarrow>
     (exn + chunk_state) option" where
  "chunk_loop E observations chunk_duration_minutes context_duration_minutes stream_end
       chunk_start st =
     (if chunk_start < stream_end then
        (case chunk_body E observations chunk_duration_minutes context_duration_minutes
                chunk_start st of
           Inl e \<Rightarrow> Some (Inl e)
         | Inr st' \<Rightarrow>
             chunk_loop E observations chunk_duration_minutes context_duration_minutes stream_end
               (chunk_start + chunk_duration_minutes * 60) st')
      else Some (Inr st))"

definition process_observations_in_chunks ::
  "env \<Rightarrow> Observation list \<Rightarrow> int \<Rightarrow> int \<Rightarrow> (exn + chunk_state) option" where
  "process_observations_in_chunks E observations0 chunk_duration_minutes context_duration_minutes =
     (let observations = sort_key start_ts observations0
      in if observations = [] then Some (Inl (IndexError ''list index out of range''))
         else chunk_loop E observations chunk_duration_minutes context_duration_minutes
                (end_ts (last observations)) (start_ts (hd observations))
                \<lparr>all_cards = [], chunk_processor = new_processor\<rparr>)"

section \<open>Properties of lists of observations and of the timeline\<close>






text \<open>The earliest start and the latest end among the observations of a chunk.\<close>

definition earliest_start :: "Observation list \<Rightarrow> int" where
  "earliest_start obs = fold min (map start_ts (tl obs)) (start_ts (hd obs))"

definition latest_end :: "Observation list \<Rightarrow> int" where
  "latest_end obs = fold max (map end_ts (tl obs)) (end_ts (hd obs))"

text \<open>The two instants of an observation can be formatted.\<close>

definition formattable :: "env \<Rightarrow> Observation \<Rightarrow> bool" where
  "formattable E obs = (\<not> isl (fmt_time E (start_ts obs)) \<and> \<not> isl (fmt_time E (end_ts obs)))"

text \<open>
  The loop invariant of \<^verbatim>\<open>process_with_merging\<close>: \<^verbatim>\<open>previous_card\<close> is the last element of
  \<^verbatim>\<open>final_cards\<close>, and there is none exactly when the list is empty.
\<close>

definition previous_is_last :: "merge_state \<Rightarrow> bool" where
  "previous_is_last st =
     (case previous_card st of
        None \<Rightarrow> final_cards st = []
      | Some p \<Rightarrow> final_cards st \<noteq> [] \<and> last (final_cards st) = p)"

section \<open>Stub collaborators for concrete runs\<close>

text \<open>
  A deterministic stand-in for each outside function: \<^verbatim>\<open>int\<close> on a string of decimal
  digits, the clock format in UTC, \<^verbatim>\<open>json.loads\<close> as a table of the texts that occur, and
  a client given as a function.
\<close>

definition digit_val :: "char \<Rightarrow> nat option" where
  "digit_val c =
     (let n = (of_char c :: nat) in if 48 \<le> n \<and> n \<le> 57 then Some (n - 48) else None)"

fun decimal_acc :: "nat \<Rightarrow> string \<Rightarrow> nat option" where
  "decimal_acc acc [] = Some acc"
| "decimal_acc acc (c # cs) =
     (case digit_val c of None \<Rightarrow> None | Some d \<Rightarrow> decimal_acc (10 * acc + d) cs)"

definition decimal_int :: "string \<Rightarrow> int option" where
  "decimal_int s = (if s = [] then None else map_option int (decimal_acc 0 s))"

definition two_digits :: "nat \<Rightarrow> string" where
  "two_digits n = [''0123456789'' ! (n div 10 mod 10), ''0123456789'' ! (n mod 10)]"

definition utc_clock :: "int \<Rightarrow> string" where
  "utc_clock t =
     (let h = nat ((t div 3600) mod 24);
          m = nat ((t div 60) mod 60);
          h12 = (if h mod 12 = 0 then 12 else h mod 12)
      in (if h12 < 10 then [''0123456789'' ! h12] else two_digits h12) @ '':'' @ two_digits m @
         (if h < 12 then '' AM'' else '' PM''))"

text \<open>The instants of the years 1 to 9999 can be formatted, the others raise.\<close>

definition utc_fmt :: "int \<Rightarrow> exn + string" where
  "utc_fmt t =
     (if - 62135596800 \<le> t \<and> t \<le> 253402300799 then Inr (utc_clock t)
      else Inl (ValueError ''year is out of range''))"

definition stub_env :: "(nat \<Rightarrow> prompt \<Rightarrow> exn + string) \<Rightarrow> (string \<times> json) list \<Rightarrow> env" where
  "stub_env client table =
     \<lparr>infer = client, json_loads = map_of table, int_of_str = decimal_int,
      py_str = (\<lambda>v. ''?''), fmt_time = utc_fmt\<rparr>"

definition failing_client :: "nat \<Rightarrow> prompt \<Rightarrow> exn + string" where
  "failing_client n p = Inl (RequestException ''connection refused'')"

definition text_client :: "string \<Rightarrow> nat \<Rightarrow> prompt \<Rightarrow> exn + string" where
  "text_client response n p = Inr response"

definition a_card :: "string \<Rightarrow> string \<Rightarrow> string \<Rightarrow> string \<Rightarrow> ActivityCard" where
  "a_card s e t u =
     \<lparr>start_time = JStr s, end_time = JStr e, category = JStr ''Work'',
      title = JStr t, summary = JStr u\<rparr>"

definition an_observation :: "int \<Rightarrow> int \<Rightarrow> string \<Rightarrow> Observation" where
  "an_observation s e d = \<lparr>start_ts = s, end_ts = e, observation = JStr d, metadata = None\<rparr>"

text \<open>
  Scenario E of the specification: a merge answer whose first start stamp is \<^verbatim>\<open>abc\<close>,
  and the value \<^verbatim>\<open>json.loads\<close> gives for it.
\<close>

definition scenario_e_text :: string where
  \<open>scenario_e_text =
     ''[{"startTimestamp": "abc", "endTimestamp": "00:10", "description": "typing"}]''\<close>

definition scenario_e_json :: json where
  "scenario_e_json =
     JArr [JObj [(''startTimestamp'', JStr ''abc''), (''endTimestamp'', JStr ''00:10''),
                 (''description'', JStr ''typing'')]]"

definition two_captions :: "(real \<times> string) list" where
  "two_captions = [(0, ''Editing main.py in VS Code''), (30, ''Reading the pytest output'')]"

text \<open>
  Scenario A of the specification: a client that answers every card request with the same
  title and summary, says \<^verbatim>\<open>combine: true\<close> to the merge check and gives a fused title
  and summary; with the values \<^verbatim>\<open>json.loads\<close> gives for its three answers.
\<close>

definition card_text :: string where
  \<open>card_text = ''{"title": "Worked on the parser", "summary": "Edited parser.py."}''\<close>

definition combine_text :: string where
  \<open>combine_text = ''{"combine": true, "reason": "same task"}''\<close>

definition fused_text :: string where
  \<open>fused_text = ''{"title": "Built the parser", "summary": "Wrote and tested the parser."}''\<close>

fun scenario_a_client :: "nat \<Rightarrow> prompt \<Rightarrow> exn + string" where
  "scenario_a_client n (CardPrompt obs) = Inr card_text"
| "scenario_a_client n (MergeCheckPrompt P N) = Inr combine_text"
| "scenario_a_client n (FusePrompt P N) = Inr fused_text"
| "scenario_a_client n p = Inl (RequestException ''no such endpoint'')"

definition scenario_a_table :: "(string \<times> json) list" where
  "scenario_a_table =
     [(card_text, JObj [(''title'', JStr ''Worked on the parser''),
                        (''summary'', JStr ''Edited parser.py.'')]),
      (combine_text, JObj [(''combine'', JBool True), (''reason'', JStr ''same task'')]),
      (fused_text, JObj [(''title'', JStr ''Built the parser''),
                         (''summary'', JStr ''Wrote and tested the parser.'')])]"

definition two_chunks :: "Observation list" where
  "two_chunks =
     [an_observation 32400 33300 ''Editing parser.py in VS Code'',
      an_observation 33300 34200 ''Running the parser tests'']"

text \<open>
  The number of 15-minute windows, from the cursor to the end of the stream, that select at
  least one observation.
\<close>

function nonempty_windows :: "Observation list \<Rightarrow> int \<Rightarrow> int \<Rightarrow> nat" where
  "nonempty_windows all_observations stream_end chunk_start =
     (if chunk_start < stream_end then
        (if chunk_observations all_observations chunk_start (chunk_start + 15 * 60) = []
         then 0 else 1) +
        nonempty_windows all_observations stream_end (chunk_start + 15 * 60)
      else 0)"
  by pat_completeness auto
termination
  by (relation "measure (\<lambda>(all_observations, stream_end, chunk_start).
                  nat (stream_end - chunk_start))") auto

text \<open>A stream with an hour without observations in it.\<close>

definition gap_stream :: "Observation list" where
  "gap_stream =
     [an_observation 32400 33000 ''Editing parser.py in VS Code'',
      an_observation 36000 36600 ''Reading mail in Gmail'']"




text \<open>
  A chunk, ordered by start, whose first observation ends after the second one; a chunk of
  one observation; and an answer to the context-aware card request with its own times.
\<close>

definition nested_chunk :: "Observation list" where
  "nested_chunk =
     [an_observation 32400 33300 ''Editing parser.py in VS Code'',
      an_observation 32700 33000 ''Glancing at Slack'']"

definition one_chunk :: "Observation list" where
  "one_chunk = [an_observation 32400 33300 ''Editing parser.py in VS Code'']"

definition context_card_text :: string where
  \<open>context_card_text =
     ''[{"startTime": "8:00 AM", "endTime": "8:30 AM", "category": "Work", "title": "Worked on the parser", "summary": "Edited parser.py."}]''\<close>

definition context_card_json :: json where
  "context_card_json =
     JArr [JObj [(''startTime'', JStr ''8:00 AM''), (''endTime'', JStr ''8:30 AM''),
                 (''category'', JStr ''Work''), (''title'', JStr ''Worked on the parser''),
                 (''summary'', JStr ''Edited parser.py.'')]]"

section \<open>Consolidation: the veto and the fusion\<close>

lemma fuse_response_bounds:
  "fuse_response E P N r = Inr c \<Longrightarrow>
     start_time c = start_time P \<and> end_time c = end_time N \<and> category c = category P"
  by (auto simp: fuse_response_def split: sum.splits)

text \<open>
  Claim C1. When the lowercase concatenation of the titles and summaries of the two cards
  contains one of the distraction keywords, \<^verbatim>\<open>should_merge_cards\<close> returns \<^verbatim>\<open>False\<close> and
  the processor is unchanged: no request has been sent to the inference service.
\<close>

theorem lexical_veto:
  "title P = JStr pt \<Longrightarrow> summary P = JStr ps \<Longrightarrow> title N = JStr nt \<Longrightarrow> summary N = JStr ns \<Longrightarrow>
   keyword \<in> set distraction_keywords \<Longrightarrow>
   contains keyword (lower (pt @ ps @ nt @ ns)) \<Longrightarrow>
   should_merge_cards E self P N = (Inr (JBool False), self)"
  by (auto simp: should_merge_cards_def combined_text_def list_ex_iff)

theorem lexical_veto_witness:
  "should_merge_cards (stub_env (text_client ''{}'') [(''{}'', JObj [(''combine'', JBool True)])])
     new_processor
     (a_card ''9:00 AM'' ''9:15 AM'' ''Coding the parser'' ''Wrote the tokenizer.'')
     (a_card ''9:15 AM'' ''9:30 AM'' ''Watched YouTube'' ''Cat clips.'')
   = (Inr (JBool False), new_processor)"
proof -
  let ?P = "a_card ''9:00 AM'' ''9:15 AM'' ''Coding the parser'' ''Wrote the tokenizer.''"
  let ?N = "a_card ''9:15 AM'' ''9:30 AM'' ''Watched YouTube'' ''Cat clips.''"
  have k: "''youtube'' \<in> set distraction_keywords"
    by (simp add: distraction_keywords_def)
  have c: "contains ''youtube''
             (lower (''Coding the parser'' @ ''Wrote the tokenizer.'' @ ''Watched YouTube'' @
                     ''Cat clips.''))"
    by code_simp
  show ?thesis
    using lexical_veto [of ?P "''Coding the parser''" "''Wrote the tokenizer.''" ?N
        "''Watched YouTube''" "''Cat clips.''" "''youtube''", OF _ _ _ _ k c]
    by (simp add: a_card_def)
qed

text \<open>
  Claim C2. Whatever the inference service does (an answer that parses, one that does not,
  or an error), the card returned by \<^verbatim>\<open>merge_two_cards\<close> starts where the previous card
  starts, ends where the new card ends, and has the category of the previous card.
\<close>

theorem merge_two_cards_bounds:
  "start_time (fst (merge_two_cards E self P N)) = start_time P \<and>
   end_time (fst (merge_two_cards E self P N)) = end_time N \<and>
   category (fst (merge_two_cards E self P N)) = category P"
  by (auto simp: merge_two_cards_def call_ollama_def fuse_fallback_def
           split: sum.splits dest: fuse_response_bounds)

section \<open>Splitting a timestamp\<close>

lemma split_on_not_Nil: "split_on c s \<noteq> []"
  by (induction s) (auto split: list.splits)

lemma split_on_no_sep: "c \<notin> set a \<Longrightarrow> split_on c a = [a]"
  by (induction a) auto

lemma split_on_append: "c \<notin> set a \<Longrightarrow> split_on c (a @ c # r) = a # split_on c r"
  by (induction a) auto

lemma split_on_decomp:
  "split_on c s = p # ps \<Longrightarrow>
     c \<notin> set p \<and> (if ps = [] then s = p else \<exists>r. s = p @ c # r \<and> split_on c r = ps)"
proof (induction s arbitrary: p ps)
  case Nil
  then show ?case by simp
next
  case (Cons x xs)
  show ?case
  proof (cases "x = c")
    case True
    with Cons.prems show ?thesis by (auto simp: split_on_not_Nil)
  next
    case False
    obtain q qs where q: "split_on c xs = q # qs"
      using split_on_not_Nil [of c xs] by (cases "split_on c xs") auto
    with Cons.prems False have pq: "p = x # q" "ps = qs" by auto
    from Cons.IH [OF q] False pq show ?thesis by auto
  qed
qed

lemma split_on_two:
  "split_on c s = [a, b] \<Longrightarrow> s = a @ c # b \<and> c \<notin> set a \<and> c \<notin> set b"
proof -
  assume h: "split_on c s = [a, b]"
  from split_on_decomp [OF h] obtain r where r: "c \<notin> set a" "s = a @ c # r" "split_on c r = [b]"
    by auto
  from split_on_decomp [OF r(3)] have "c \<notin> set b" "r = b" by auto
  with r show ?thesis by simp
qed

lemma split_on_three:
  "split_on c s = [a, b, d] \<Longrightarrow>
     s = a @ c # b @ c # d \<and> c \<notin> set a \<and> c \<notin> set b \<and> c \<notin> set d"
proof -
  assume h: "split_on c s = [a, b, d]"
  from split_on_decomp [OF h] obtain r where
    r: "c \<notin> set a" "s = a @ c # r" "split_on c r = [b, d]"
    by auto
  from split_on_two [OF r(3)] r show ?thesis by simp
qed

lemma int_fields_two:
  "int_fields E [a, b] = Inr ns \<Longrightarrow>
     \<exists>m sec. ns = [m, sec] \<and> int_of_str E a = Some m \<and> int_of_str E b = Some sec"
  by (auto simp: int_field_def split: sum.splits option.splits)

lemma int_fields_three:
  "int_fields E [a, b, d] = Inr ns \<Longrightarrow>
     \<exists>h m sec. ns = [h, m, sec] \<and> int_of_str E a = Some h \<and> int_of_str E b = Some m \<and>
        int_of_str E d = Some sec"
  by (auto simp: int_field_def split: sum.splits option.splits)

lemma parse_two_fields:
  assumes "CHR '':'' \<notin> set a" "CHR '':'' \<notin> set b"
    and "int_of_str E a = Some m" "int_of_str E b = Some sec"
  shows "parse_timestamp E (JStr (a @ '':'' @ b)) = Inr (m * 60 + sec)"
proof -
  have "split_on CHR '':'' (a @ '':'' @ b) = [a, b]"
    using assms(1,2) by (simp add: split_on_append split_on_no_sep)
  then show ?thesis
    using assms(3,4) by (simp add: parse_timestamp_str_def int_field_def)
qed

lemma parse_three_fields:
  assumes "CHR '':'' \<notin> set a" "CHR '':'' \<notin> set b" "CHR '':'' \<notin> set d"
    and "int_of_str E a = Some h" "int_of_str E b = Some m" "int_of_str E d = Some sec"
  shows "parse_timestamp E (JStr (a @ '':'' @ b @ '':'' @ d)) = Inr (h * 3600 + m * 60 + sec)"
proof -
  have "split_on CHR '':'' (a @ '':'' @ b @ '':'' @ d) = [a, b, d]"
    using assms(1,2,3) by (simp add: split_on_append split_on_no_sep)
  then show ?thesis
    using assms(4,5,6) by (simp add: parse_timestamp_str_def int_field_def)
qed

lemma length_two: "length xs = 2 \<Longrightarrow> \<exists>a b. xs = [a, b]"
  by (cases xs; cases "tl xs") auto

lemma length_three: "length xs = 3 \<Longrightarrow> \<exists>a b d. xs = [a, b, d]"
  by (cases xs; cases "tl xs"; cases "tl (tl xs)") auto

lemma parse_timestamp_str_Inr:
  assumes "parse_timestamp_str E s = Inr v"
  shows "(\<exists>a b m sec. s = a @ '':'' @ b \<and> CHR '':'' \<notin> set a \<and> CHR '':'' \<notin> set b \<and>
            int_of_str E a = Some m \<and> int_of_str E b = Some sec \<and> v = m * 60 + sec) \<or>
         (\<exists>a b d h m sec. s = a @ '':'' @ b @ '':'' @ d \<and>
            CHR '':'' \<notin> set a \<and> CHR '':'' \<notin> set b \<and> CHR '':'' \<notin> set d \<and>
            int_of_str E a = Some h \<and> int_of_str E b = Some m \<and> int_of_str E d = Some sec \<and>
            v = h * 3600 + m * 60 + sec)"
proof -
  let ?parts = "split_on CHR '':'' s"
  consider (two) "length ?parts = 2" | (three) "length ?parts = 3"
    | (other) "length ?parts \<noteq> 2" "length ?parts \<noteq> 3" by blast
  then show ?thesis
  proof cases
    case two
    then obtain a b where ab: "?parts = [a, b]" using length_two by blast
    from assms ab obtain ns where ns: "int_fields E [a, b] = Inr ns" "v = ns ! 0 * 60 + ns ! 1"
      by (auto simp: parse_timestamp_str_def split: sum.splits)
    from ns(1) obtain m sec where
      "ns = [m, sec]" "int_of_str E a = Some m" "int_of_str E b = Some sec"
      using int_fields_two by blast
    with ns(2) split_on_two [OF ab]
    have "\<exists>a b m sec. s = a @ '':'' @ b \<and> CHR '':'' \<notin> set a \<and> CHR '':'' \<notin> set b \<and>
            int_of_str E a = Some m \<and> int_of_str E b = Some sec \<and> v = m * 60 + sec"
      by (intro exI [of _ a] exI [of _ b] exI [of _ m] exI [of _ sec]) simp
    then show ?thesis ..
  next
    case three
    then obtain a b d where abd: "?parts = [a, b, d]" using length_three by blast
    from assms abd obtain ns where
      ns: "int_fields E [a, b, d] = Inr ns" "v = ns ! 0 * 3600 + ns ! 1 * 60 + ns ! 2"
      by (auto simp: parse_timestamp_str_def split: sum.splits)
    from ns(1) obtain h m sec where
      "ns = [h, m, sec]" "int_of_str E a = Some h" "int_of_str E b = Some m"
      "int_of_str E d = Some sec"
      using int_fields_three by blast
    with ns(2) split_on_three [OF abd]
    have "\<exists>a b d h m sec. s = a @ '':'' @ b @ '':'' @ d \<and>
            CHR '':'' \<notin> set a \<and> CHR '':'' \<notin> set b \<and> CHR '':'' \<notin> set d \<and>
            int_of_str E a = Some h \<and> int_of_str E b = Some m \<and> int_of_str E d = Some sec \<and>
            v = h * 3600 + m * 60 + sec"
      by (intro exI [of _ a] exI [of _ b] exI [of _ d] exI [of _ h] exI [of _ m]
            exI [of _ sec]) simp
    then show ?thesis ..
  next
    case other
    with assms show ?thesis by (simp add: parse_timestamp_str_def)
  qed
qed

section \<open>Segment Merger: the failure path\<close>

lemma not_Inr_is_Inl: "(\<forall>v. x \<noteq> Inr v) \<Longrightarrow> \<exists>e. x = Inl e"
  by (cases x) auto

lemma segment_observation_bad_timestamp:
  assumes "map_of kvs ''startTimestamp'' = Some (JStr s) \<or>
           map_of kvs ''endTimestamp'' = Some (JStr s)"
    and "\<forall>v. parse_timestamp E (JStr s) \<noteq> Inr v"
  shows "\<exists>e. segment_observation E self epoch (JObj kvs) = Inl e"
proof -
  from assms(2) obtain e where e: "parse_timestamp E (JStr s) = Inl e"
    using not_Inr_is_Inl by blast
  from assms(1) show ?thesis
  proof
    assume "map_of kvs ''startTimestamp'' = Some (JStr s)"
    with e show ?thesis by (simp add: segment_observation_def)
  next
    assume "map_of kvs ''endTimestamp'' = Some (JStr s)"
    with e show ?thesis
      by (auto simp: segment_observation_def split: sum.splits option.splits)
  qed
qed

lemma segment_observations_failure:
  "seg \<in> set segs \<Longrightarrow> segment_observation E self epoch seg = Inl e \<Longrightarrow>
     \<exists>e'. segment_observations E self epoch segs = Inl e'"
  by (induction segs) (auto split: sum.splits)

lemma merge_response_bad_timestamp:
  assumes "parse_json_from_response E response (Some ExpList) = Inr (JArr segs)"
    and "JObj kvs \<in> set segs"
    and "map_of kvs ''startTimestamp'' = Some (JStr s) \<or>
         map_of kvs ''endTimestamp'' = Some (JStr s)"
    and "\<forall>v. parse_timestamp E (JStr s) \<noteq> Inr v"
  shows "\<exists>e. merge_response E self epoch response = Inl e"
proof -
  from segment_observation_bad_timestamp [OF assms(3,4)] obtain e where
    "segment_observation E self epoch (JObj kvs) = Inl e" by blast
  from segment_observations_failure [OF assms(2) this] assms(1) show ?thesis
    by (simp add: merge_response_def)
qed

lemma merge_frame_descriptions_raise:
  "infer E (sent self) (SegmentPrompt fds D) = Inl e \<Longrightarrow>
   merge_frame_descriptions E self fds epoch D =
     ([merge_fallback epoch D e],
      log_call (self\<lparr>sent := Suc (sent self)\<rparr>) (SegmentPrompt fds D) [] (Some (exn_str e)))"
  by (simp add: merge_frame_descriptions_def call_ollama_def)

lemma merge_frame_descriptions_response:
  "infer E (sent self) (SegmentPrompt fds D) = Inr response \<Longrightarrow>
   merge_frame_descriptions E self fds epoch D =
     (case merge_response E (self\<lparr>sent := Suc (sent self)\<rparr>) epoch response of
        Inl e \<Rightarrow>
          ([merge_fallback epoch D e],
           log_call (self\<lparr>sent := Suc (sent self)\<rparr>) (SegmentPrompt fds D) []
             (Some (exn_str e)))
      | Inr observations \<Rightarrow>
          (observations,
           log_call (self\<lparr>sent := Suc (sent self)\<rparr>) (SegmentPrompt fds D) response None))"
  by (simp add: merge_frame_descriptions_def call_ollama_def Let_def)

text \<open>
  Claim C3. When the request of the Segment Merger raises, when its answer does not parse,
  or when a segment of the parsed answer has a start or end string that
  \<^verbatim>\<open>_parse_timestamp\<close> rejects, \<^verbatim>\<open>_merge_frame_descriptions\<close> returns (it has no
  raising branch) exactly one observation, from \<open>int(T0)\<close> to \<open>int(T0 + D)\<close>, with the
  sentinel description and the text of the error in its metadata; the error is also logged.
\<close>

theorem merge_failure_single_observation:
  "(infer E (sent self) (SegmentPrompt fds D) = Inl e \<longrightarrow>
      merge_frame_descriptions E self fds epoch D =
        ([\<lparr>start_ts = py_trunc epoch, end_ts = py_trunc (epoch + D),
           observation = JStr ''Failed to merge frame descriptions'',
           metadata = Some [(''error'', JStr (exn_str e))]\<rparr>],
         log_call (self\<lparr>sent := Suc (sent self)\<rparr>) (SegmentPrompt fds D) []
           (Some (exn_str e)))) \<and>
   (infer E (sent self) (SegmentPrompt fds D) = Inr response \<and>
    parse_json_from_response E response (Some ExpList) = Inl e \<longrightarrow>
      merge_frame_descriptions E self fds epoch D =
        ([\<lparr>start_ts = py_trunc epoch, end_ts = py_trunc (epoch + D),
           observation = JStr ''Failed to merge frame descriptions'',
           metadata = Some [(''error'', JStr (exn_str e))]\<rparr>],
         log_call (self\<lparr>sent := Suc (sent self)\<rparr>) (SegmentPrompt fds D) []
           (Some (exn_str e)))) \<and>
   (infer E (sent self) (SegmentPrompt fds D) = Inr response \<and>
    parse_json_from_response E response (Some ExpList) = Inr (JArr segs) \<and>
    JObj kvs \<in> set segs \<and>
    (map_of kvs ''startTimestamp'' = Some (JStr s) \<or>
     map_of kvs ''endTimestamp'' = Some (JStr s)) \<and>
    (\<forall>v. parse_timestamp E (JStr s) \<noteq> Inr v) \<longrightarrow>
      (\<exists>e'. merge_frame_descriptions E self fds epoch D =
        ([\<lparr>start_ts = py_trunc epoch, end_ts = py_trunc (epoch + D),
           observation = JStr ''Failed to merge frame descriptions'',
           metadata = Some [(''error'', JStr (exn_str e'))]\<rparr>],
         log_call (self\<lparr>sent := Suc (sent self)\<rparr>) (SegmentPrompt fds D) []
           (Some (exn_str e')))))"
proof (intro conjI impI)
  assume "infer E (sent self) (SegmentPrompt fds D) = Inl e"
  then show "merge_frame_descriptions E self fds epoch D =
        ([\<lparr>start_ts = py_trunc epoch, end_ts = py_trunc (epoch + D),
           observation = JStr ''Failed to merge frame descriptions'',
           metadata = Some [(''error'', JStr (exn_str e))]\<rparr>],
         log_call (self\<lparr>sent := Suc (sent self)\<rparr>) (SegmentPrompt fds D) []
           (Some (exn_str e)))"
    by (simp add: merge_frame_descriptions_raise merge_fallback_def)
next
  assume "infer E (sent self) (SegmentPrompt fds D) = Inr response \<and>
    parse_json_from_response E response (Some ExpList) = Inl e"
  then show "merge_frame_descriptions E self fds epoch D =
        ([\<lparr>start_ts = py_trunc epoch, end_ts = py_trunc (epoch + D),
           observation = JStr ''Failed to merge frame descriptions'',
           metadata = Some [(''error'', JStr (exn_str e))]\<rparr>],
         log_call (self\<lparr>sent := Suc (sent self)\<rparr>) (SegmentPrompt fds D) []
           (Some (exn_str e)))"
    by (simp add: merge_frame_descriptions_response merge_response_def merge_fallback_def)
next
  assume a: "infer E (sent self) (SegmentPrompt fds D) = Inr response \<and>
    parse_json_from_response E response (Some ExpList) = Inr (JArr segs) \<and>
    JObj kvs \<in> set segs \<and>
    (map_of kvs ''startTimestamp'' = Some (JStr s) \<or>
     map_of kvs ''endTimestamp'' = Some (JStr s)) \<and>
    (\<forall>v. parse_timestamp E (JStr s) \<noteq> Inr v)"
  then obtain e' where
    "merge_response E (self\<lparr>sent := Suc (sent self)\<rparr>) epoch response = Inl e'"
    using merge_response_bad_timestamp by blast
  with a have "merge_frame_descriptions E self fds epoch D =
        ([\<lparr>start_ts = py_trunc epoch, end_ts = py_trunc (epoch + D),
           observation = JStr ''Failed to merge frame descriptions'',
           metadata = Some [(''error'', JStr (exn_str e'))]\<rparr>],
         log_call (self\<lparr>sent := Suc (sent self)\<rparr>) (SegmentPrompt fds D) []
           (Some (exn_str e')))"
    by (simp add: merge_frame_descriptions_response merge_fallback_def)
  then show "\<exists>e'. merge_frame_descriptions E self fds epoch D =
        ([\<lparr>start_ts = py_trunc epoch, end_ts = py_trunc (epoch + D),
           observation = JStr ''Failed to merge frame descriptions'',
           metadata = Some [(''error'', JStr (exn_str e'))]\<rparr>],
         log_call (self\<lparr>sent := Suc (sent self)\<rparr>) (SegmentPrompt fds D) []
           (Some (exn_str e')))"
    by (rule exI)
qed

theorem merge_failure_single_observation_witness:
  "fst (merge_frame_descriptions (stub_env failing_client []) new_processor two_captions 1000 60) =
     [\<lparr>start_ts = 1000, end_ts = 1060,
       observation = JStr ''Failed to merge frame descriptions'',
       metadata = Some [(''error'', JStr ''connection refused'')]\<rparr>] \<and>
   fst (merge_frame_descriptions (stub_env (text_client ''I cannot help'') []) new_processor
          two_captions 1000 60) =
     [\<lparr>start_ts = 1000, end_ts = 1060,
       observation = JStr ''Failed to merge frame descriptions'',
       metadata = Some [(''error'',
         JStr ''Could not parse JSON from response: I cannot help...'')]\<rparr>] \<and>
   (let obs = fst (merge_frame_descriptions
                     (stub_env (text_client scenario_e_text) [(scenario_e_text, scenario_e_json)])
                     new_processor two_captions 1000 60)
    in length obs = 1 \<and> start_ts (hd obs) = 1000 \<and> end_ts (hd obs) = 1060 \<and>
       observation (hd obs) = JStr ''Failed to merge frame descriptions'')"
proof (intro conjI)
  let ?E1 = "stub_env failing_client []"
  have h1: "infer ?E1 (sent new_processor) (SegmentPrompt two_captions 60) =
              Inl (RequestException ''connection refused'')"
    by (simp add: stub_env_def failing_client_def)
  from merge_failure_single_observation [where E = ?E1 and epoch = 1000, THEN conjunct1,
      rule_format, OF h1]
  show "fst (merge_frame_descriptions ?E1 new_processor two_captions 1000 60) =
     [\<lparr>start_ts = 1000, end_ts = 1060,
       observation = JStr ''Failed to merge frame descriptions'',
       metadata = Some [(''error'', JStr ''connection refused'')]\<rparr>]"
    by (simp add: py_trunc_def)
next
  let ?E2 = "stub_env (text_client ''I cannot help'') []"
  have h2: "infer ?E2 (sent new_processor) (SegmentPrompt two_captions 60) = Inr ''I cannot help'' \<and>
            parse_json_from_response ?E2 ''I cannot help'' (Some ExpList) =
              Inl (ValueError ''Could not parse JSON from response: I cannot help...'')"
    by code_simp
  from merge_failure_single_observation [where E = ?E2 and epoch = 1000, THEN conjunct2,
      THEN conjunct1, rule_format, OF h2]
  show "fst (merge_frame_descriptions ?E2 new_processor two_captions 1000 60) =
     [\<lparr>start_ts = 1000, end_ts = 1060,
       observation = JStr ''Failed to merge frame descriptions'',
       metadata = Some [(''error'',
         JStr ''Could not parse JSON from response: I cannot help...'')]\<rparr>]"
    by (simp add: py_trunc_def)
next
  let ?E3 = "stub_env (text_client scenario_e_text) [(scenario_e_text, scenario_e_json)]"
  let ?kvs = "[(''startTimestamp'', JStr ''abc''), (''endTimestamp'', JStr ''00:10''),
               (''description'', JStr ''typing'')]"
  have p: "parse_timestamp ?E3 (JStr ''abc'') = Inl (ValueError ''Invalid timestamp format: abc'')"
    by code_simp
  have q: "infer ?E3 (sent new_processor) (SegmentPrompt two_captions 60) = Inr scenario_e_text \<and>
           parse_json_from_response ?E3 scenario_e_text (Some ExpList) = Inr (JArr [JObj ?kvs])"
    by code_simp
  have h3: "infer ?E3 (sent new_processor) (SegmentPrompt two_captions 60) = Inr scenario_e_text \<and>
            parse_json_from_response ?E3 scenario_e_text (Some ExpList) = Inr (JArr [JObj ?kvs]) \<and>
            JObj ?kvs \<in> set [JObj ?kvs] \<and>
            (map_of ?kvs ''startTimestamp'' = Some (JStr ''abc'') \<or>
             map_of ?kvs ''endTimestamp'' = Some (JStr ''abc'')) \<and>
            (\<forall>v. parse_timestamp ?E3 (JStr ''abc'') \<noteq> Inr v)"
    using p q by simp
  from merge_failure_single_observation [where E = ?E3 and epoch = 1000, THEN conjunct2,
      THEN conjunct2, rule_format, OF h3]
  show "let obs = fst (merge_frame_descriptions ?E3 new_processor two_captions 1000 60)
        in length obs = 1 \<and> start_ts (hd obs) = 1000 \<and> end_ts (hd obs) = 1060 \<and>
           observation (hd obs) = JStr ''Failed to merge frame descriptions''"
    by (auto simp: py_trunc_def)
qed

section \<open>The timestamp parser\<close>

text \<open>
  Claim C9. \<^verbatim>\<open>_parse_timestamp\<close> returns \<open>m * 60 + sec\<close> on two integer fields
  separated by a colon, \<open>h * 3600 + m * 60 + sec\<close> on three, and raises on every other
  string: whenever it returns, the string is of one of the two forms. In the Segment Merger
  a start or end string on which it raises makes the whole batch fall back to the single
  observation.
\<close>

theorem parse_timestamp_forms:
  "(\<forall>a b m sec.
      CHR '':'' \<notin> set a \<and> CHR '':'' \<notin> set b \<and>
      int_of_str E a = Some m \<and> int_of_str E b = Some sec \<longrightarrow>
      parse_timestamp E (JStr (a @ '':'' @ b)) = Inr (m * 60 + sec)) \<and>
   (\<forall>a b d h m sec.
      CHR '':'' \<notin> set a \<and> CHR '':'' \<notin> set b \<and> CHR '':'' \<notin> set d \<and>
      int_of_str E a = Some h \<and> int_of_str E b = Some m \<and> int_of_str E d = Some sec \<longrightarrow>
      parse_timestamp E (JStr (a @ '':'' @ b @ '':'' @ d)) = Inr (h * 3600 + m * 60 + sec)) \<and>
   (\<forall>s v. parse_timestamp E (JStr s) = Inr v \<longrightarrow>
      (\<exists>a b m sec. s = a @ '':'' @ b \<and> CHR '':'' \<notin> set a \<and> CHR '':'' \<notin> set b \<and>
          int_of_str E a = Some m \<and> int_of_str E b = Some sec \<and> v = m * 60 + sec) \<or>
      (\<exists>a b d h m sec. s = a @ '':'' @ b @ '':'' @ d \<and>
          CHR '':'' \<notin> set a \<and> CHR '':'' \<notin> set b \<and> CHR '':'' \<notin> set d \<and>
          int_of_str E a = Some h \<and> int_of_str E b = Some m \<and> int_of_str E d = Some sec \<and>
          v = h * 3600 + m * 60 + sec)) \<and>
   (\<forall>self fds D epoch response segs kvs s.
      infer E (sent self) (SegmentPrompt fds D) = Inr response \<and>
      parse_json_from_response E response (Some ExpList) = Inr (JArr segs) \<and>
      JObj kvs \<in> set segs \<and>
      (map_of kvs ''startTimestamp'' = Some (JStr s) \<or>
       map_of kvs ''endTimestamp'' = Some (JStr s)) \<and>
      (\<forall>v. parse_timestamp E (JStr s) \<noteq> Inr v) \<longrightarrow>
      (\<exists>e. fst (merge_frame_descriptions E self fds epoch D) = [merge_fallback epoch D e]))"
proof (intro conjI allI impI)
  fix a b m sec
  assume "CHR '':'' \<notin> set a \<and> CHR '':'' \<notin> set b \<and>
      int_of_str E a = Some m \<and> int_of_str E b = Some sec"
  then show "parse_timestamp E (JStr (a @ '':'' @ b)) = Inr (m * 60 + sec)"
    using parse_two_fields by blast
next
  fix a b d h m sec
  assume "CHR '':'' \<notin> set a \<and> CHR '':'' \<notin> set b \<and> CHR '':'' \<notin> set d \<and>
      int_of_str E a = Some h \<and> int_of_str E b = Some m \<and> int_of_str E d = Some sec"
  then show "parse_timestamp E (JStr (a @ '':'' @ b @ '':'' @ d)) =
               Inr (h * 3600 + m * 60 + sec)"
    using parse_three_fields by blast
next
  fix s v
  assume "parse_timestamp E (JStr s) = Inr v"
  then have "parse_timestamp_str E s = Inr v" by simp
  then show "(\<exists>a b m sec. s = a @ '':'' @ b \<and> CHR '':'' \<notin> set a \<and> CHR '':'' \<notin> set b \<and>
          int_of_str E a = Some m \<and> int_of_str E b = Some sec \<and> v = m * 60 + sec) \<or>
      (\<exists>a b d h m sec. s = a @ '':'' @ b @ '':'' @ d \<and>
          CHR '':'' \<notin> set a \<and> CHR '':'' \<notin> set b \<and> CHR '':'' \<notin> set d \<and>
          int_of_str E a = Some h \<and> int_of_str E b = Some m \<and> int_of_str E d = Some sec \<and>
          v = h * 3600 + m * 60 + sec)"
    by (rule parse_timestamp_str_Inr)
next
  fix self :: VideoProcessor and fds D epoch response segs kvs s
  assume a: "infer E (sent self) (SegmentPrompt fds D) = Inr response \<and>
      parse_json_from_response E response (Some ExpList) = Inr (JArr segs) \<and>
      JObj kvs \<in> set segs \<and>
      (map_of kvs ''startTimestamp'' = Some (JStr s) \<or>
       map_of kvs ''endTimestamp'' = Some (JStr s)) \<and>
      (\<forall>v. parse_timestamp E (JStr s) \<noteq> Inr v)"
  then obtain e where
    "merge_response E (self\<lparr>sent := Suc (sent self)\<rparr>) epoch response = Inl e"
    using merge_response_bad_timestamp by blast
  with a have "fst (merge_frame_descriptions E self fds epoch D) = [merge_fallback epoch D e]"
    by (simp add: merge_frame_descriptions_response)
  then show "\<exists>e. fst (merge_frame_descriptions E self fds epoch D) = [merge_fallback epoch D e]"
    by (rule exI)
qed

theorem parse_timestamp_forms_witness:
  "parse_timestamp (stub_env (text_client scenario_e_text) [(scenario_e_text, scenario_e_json)])
     (JStr ''05:30'') = Inr 330 \<and>
   parse_timestamp (stub_env (text_client scenario_e_text) [(scenario_e_text, scenario_e_json)])
     (JStr ''01:02:03'') = Inr 3723 \<and>
   length (fst (merge_frame_descriptions
                  (stub_env (text_client scenario_e_text) [(scenario_e_text, scenario_e_json)])
                  new_processor two_captions 1000 60)) = 1"
proof -
  let ?E = "stub_env (text_client scenario_e_text) [(scenario_e_text, scenario_e_json)]"
  let ?kvs = "[(''startTimestamp'', JStr ''abc''), (''endTimestamp'', JStr ''00:10''),
               (''description'', JStr ''typing'')]"
  note forms = parse_timestamp_forms [of ?E]
  have i1: "int_of_str ?E ''05'' = Some 5" "int_of_str ?E ''30'' = Some 30"
    "int_of_str ?E ''01'' = Some 1" "int_of_str ?E ''02'' = Some 2" "int_of_str ?E ''03'' = Some 3"
    by code_simp+
  have h1: "CHR '':'' \<notin> set ''05'' \<and> CHR '':'' \<notin> set ''30'' \<and>
            int_of_str ?E ''05'' = Some 5 \<and> int_of_str ?E ''30'' = Some 30"
    using i1 by simp
  from forms [THEN conjunct1, rule_format, OF h1]
  have c1: "parse_timestamp ?E (JStr ''05:30'') = Inr 330" by simp
  have h2: "CHR '':'' \<notin> set ''01'' \<and> CHR '':'' \<notin> set ''02'' \<and> CHR '':'' \<notin> set ''03'' \<and>
            int_of_str ?E ''01'' = Some 1 \<and> int_of_str ?E ''02'' = Some 2 \<and>
            int_of_str ?E ''03'' = Some 3"
    using i1 by simp
  from forms [THEN conjunct2, THEN conjunct1, rule_format, OF h2]
  have c2: "parse_timestamp ?E (JStr ''01:02:03'') = Inr 3723" by simp
  have p: "parse_timestamp ?E (JStr ''abc'') = Inl (ValueError ''Invalid timestamp format: abc'')"
    by code_simp
  have q: "infer ?E (sent new_processor) (SegmentPrompt two_captions 60) = Inr scenario_e_text \<and>
           parse_json_from_response ?E scenario_e_text (Some ExpList) = Inr (JArr [JObj ?kvs])"
    by code_simp
  have h4: "infer ?E (sent new_processor) (SegmentPrompt two_captions 60) = Inr scenario_e_text \<and>
            parse_json_from_response ?E scenario_e_text (Some ExpList) = Inr (JArr [JObj ?kvs]) \<and>
            JObj ?kvs \<in> set [JObj ?kvs] \<and>
            (map_of ?kvs ''startTimestamp'' = Some (JStr ''abc'') \<or>
             map_of ?kvs ''endTimestamp'' = Some (JStr ''abc'')) \<and>
            (\<forall>v. parse_timestamp ?E (JStr ''abc'') \<noteq> Inr v)"
    using p q by simp
  from forms [THEN conjunct2, THEN conjunct2, THEN conjunct2, rule_format, OF h4, of 1000]
  have c4: "length (fst (merge_frame_descriptions ?E new_processor two_captions 1000 60)) = 1"
    by auto
  from c1 c2 c4 show ?thesis by simp
qed

section \<open>Consolidation: a failed merge check\<close>

lemma should_merge_cards_after_veto:
  assumes "title P = JStr pt" "summary P = JStr ps" "title N = JStr nt" "summary N = JStr ns"
    and "\<forall>keyword \<in> set distraction_keywords. \<not> contains keyword (lower (pt @ ps @ nt @ ns))"
  shows "should_merge_cards E self P N =
           (case infer E (sent self) (MergeCheckPrompt P N) of
              Inl e \<Rightarrow> (Inr (JBool False), self\<lparr>sent := Suc (sent self)\<rparr>)
            | Inr response \<Rightarrow>
                (case merge_check_response E response of
                   Inl e \<Rightarrow> (Inr (JBool False), self\<lparr>sent := Suc (sent self)\<rparr>)
                 | Inr should_combine \<Rightarrow>
                     (Inr should_combine, self\<lparr>sent := Suc (sent self)\<rparr>)))"
  using assms
  by (simp add: should_merge_cards_def combined_text_def list_ex_iff call_ollama_def)

text \<open>
  Claim C5. For two cards that pass the lexical veto, when the request of the merge check
  raises or its answer does not parse as a JSON object, \<^verbatim>\<open>should_merge_cards\<close> returns
  \<^verbatim>\<open>False\<close>, and the driver, whose previous card is \<open>P\<close>, appends \<open>N\<close> unchanged and makes
  it the previous card.
\<close>

theorem merge_check_failure_keeps_separate:
  assumes "title P = JStr pt" "summary P = JStr ps" "title N = JStr nt" "summary N = JStr ns"
    and "\<forall>keyword \<in> set distraction_keywords. \<not> contains keyword (lower (pt @ ps @ nt @ ns))"
    and "infer E (sent self) (MergeCheckPrompt P N) = Inl e \<or>
         (\<exists>response e'. infer E (sent self) (MergeCheckPrompt P N) = Inr response \<and>
            parse_json_from_response E response (Some ExpDict) = Inl e')"
  shows "should_merge_cards E self P N = (Inr (JBool False), self\<lparr>sent := Suc (sent self)\<rparr>) \<and>
         (\<forall>st. previous_card st = Some P \<and> processor st = self \<longrightarrow>
            consolidate E st N =
              Inr \<lparr>final_cards = final_cards st @ [N], previous_card = Some N,
                   processor = self\<lparr>sent := Suc (sent self)\<rparr>\<rparr>)"
proof -
  from assms(6)
  have d: "should_merge_cards E self P N = (Inr (JBool False), self\<lparr>sent := Suc (sent self)\<rparr>)"
    by (auto simp: should_merge_cards_after_veto [OF assms(1-5)] merge_check_response_def)
  then have "\<forall>st. previous_card st = Some P \<and> processor st = self \<longrightarrow>
            consolidate E st N =
              Inr \<lparr>final_cards = final_cards st @ [N], previous_card = Some N,
                   processor = self\<lparr>sent := Suc (sent self)\<rparr>\<rparr>"
    by (simp add: consolidate_def)
  with d show ?thesis by simp
qed

theorem merge_check_failure_keeps_separate_witness:
  "consolidate (stub_env failing_client [])
     \<lparr>final_cards = [a_card ''9:00 AM'' ''9:15 AM'' ''Coding the parser'' ''Wrote the tokenizer.''],
      previous_card = Some (a_card ''9:00 AM'' ''9:15 AM'' ''Coding the parser''
                              ''Wrote the tokenizer.''),
      processor = new_processor\<rparr>
     (a_card ''9:15 AM'' ''9:30 AM'' ''Testing the parser'' ''Ran the unit tests.'') =
   Inr \<lparr>final_cards = [a_card ''9:00 AM'' ''9:15 AM'' ''Coding the parser'' ''Wrote the tokenizer.'',
                       a_card ''9:15 AM'' ''9:30 AM'' ''Testing the parser'' ''Ran the unit tests.''],
        previous_card = Some (a_card ''9:15 AM'' ''9:30 AM'' ''Testing the parser''
                                ''Ran the unit tests.''),
        processor = new_processor\<lparr>sent := 1\<rparr>\<rparr>"
proof -
  let ?E = "stub_env failing_client []"
  let ?P = "a_card ''9:00 AM'' ''9:15 AM'' ''Coding the parser'' ''Wrote the tokenizer.''"
  let ?N = "a_card ''9:15 AM'' ''9:30 AM'' ''Testing the parser'' ''Ran the unit tests.''"
  let ?st = "\<lparr>final_cards = [?P], previous_card = Some ?P, processor = new_processor\<rparr>"
  have f: "title ?P = JStr ''Coding the parser''" "summary ?P = JStr ''Wrote the tokenizer.''"
          "title ?N = JStr ''Testing the parser''" "summary ?N = JStr ''Ran the unit tests.''"
    by (simp_all add: a_card_def)
  have "\<not> list_ex (\<lambda>keyword. contains keyword
               (lower (''Coding the parser'' @ ''Wrote the tokenizer.'' @
                       ''Testing the parser'' @ ''Ran the unit tests.''))) distraction_keywords"
    by code_simp
  then have v: "\<forall>keyword \<in> set distraction_keywords. \<not> contains keyword
               (lower (''Coding the parser'' @ ''Wrote the tokenizer.'' @
                       ''Testing the parser'' @ ''Ran the unit tests.''))"
    by (simp add: list_ex_iff)
  have c: "infer ?E (sent new_processor) (MergeCheckPrompt ?P ?N) =
             Inl (RequestException ''connection refused'') \<or>
           (\<exists>response e'. infer ?E (sent new_processor) (MergeCheckPrompt ?P ?N) = Inr response \<and>
              parse_json_from_response ?E response (Some ExpDict) = Inl e')"
    by (simp add: stub_env_def failing_client_def)
  from merge_check_failure_keeps_separate [OF f v c, THEN conjunct2, rule_format, of ?st]
  show ?thesis by (simp add: new_processor_def)
qed

section \<open>Supporting facts about the model\<close>

text \<open>\<open>contains\<close> is the substring test.\<close>

lemma starts_with_iff: "starts_with k s \<longleftrightarrow> (\<exists>q. s = k @ q)"
  by (induction k s rule: starts_with.induct) auto

lemma contains_iff: "contains k s \<longleftrightarrow> (\<exists>p q. s = p @ k @ q)"
proof (induction s)
  case Nil
  then show ?case by auto
next
  case (Cons c cs)
  show ?case
  proof
    assume "contains k (c # cs)"
    then consider "starts_with k (c # cs)" | "contains k cs" by auto
    then show "\<exists>p q. c # cs = p @ k @ q"
    proof cases
      case 1
      then obtain q where "c # cs = k @ q" using starts_with_iff by blast
      then have "c # cs = [] @ k @ q" by simp
      then show ?thesis by blast
    next
      case 2
      with Cons obtain p q where "cs = p @ k @ q" by blast
      then have "c # cs = (c # p) @ k @ q" by simp
      then show ?thesis by blast
    qed
  next
    assume "\<exists>p q. c # cs = p @ k @ q"
    then obtain p q where pq: "c # cs = p @ k @ q" by blast
    show "contains k (c # cs)"
    proof (cases p)
      case Nil
      with pq have "starts_with k (c # cs)" using starts_with_iff by auto
      then show ?thesis by simp
    next
      case (Cons a p')
      with pq have "cs = p' @ k @ q" by simp
      with Cons.IH have "contains k cs" by blast
      then show ?thesis by simp
    qed
  qed
qed

text \<open>With a positive chunk length the loop of \<^verbatim>\<open>process_observations_in_chunks\<close> returns.\<close>

lemma chunk_loop_returns:
  "0 < d \<Longrightarrow> \<exists>r. chunk_loop E obs d c stream_end chunk_start st = Some r"
proof (induction "nat (stream_end - chunk_start)" arbitrary: chunk_start st rule: less_induct)
  case less
  show ?case
  proof (cases "chunk_start < stream_end")
    case False
    then show ?thesis by (subst chunk_loop.simps) simp
  next
    case True
    show ?thesis
    proof (cases "chunk_body E obs d c chunk_start st")
      case (Inl e)
      with True show ?thesis by (subst chunk_loop.simps) simp
    next
      case (Inr st1)
      have "nat (stream_end - (chunk_start + d * 60)) < nat (stream_end - chunk_start)"
        using True less.prems by simp
      from less.hyps [OF this less.prems] obtain r where
        "chunk_loop E obs d c stream_end (chunk_start + d * 60) st1 = Some r" by blast
      with True Inr show ?thesis by (subst chunk_loop.simps) simp
    qed
  qed
qed

section \<open>The driver keeps the previous card last\<close>

lemma list_update_last: "xs \<noteq> [] \<Longrightarrow> xs[length xs - Suc 0 := m] = butlast xs @ [m]"
  by (induction xs rule: rev_induct) (simp_all add: list_update_append)

lemma consolidate_first:
  "previous_card st = None \<Longrightarrow>
   consolidate E st N =
     Inr (st\<lparr>final_cards := final_cards st @ [N], previous_card := Some N\<rparr>)"
  by (simp add: consolidate_def)

lemma consolidate_positive:
  assumes "previous_is_last st" "previous_card st = Some P"
    and "should_merge_cards E (processor st) P N = (Inr decision, p1)" "truthy decision"
  shows "consolidate E st N =
           Inr \<lparr>final_cards = butlast (final_cards st) @ [fst (merge_two_cards E p1 P N)],
                previous_card = Some (fst (merge_two_cards E p1 P N)),
                processor = snd (merge_two_cards E p1 P N)\<rparr>"
proof -
  from assms(1,2) have l: "final_cards st \<noteq> []" "last (final_cards st) = P"
    by (simp_all add: previous_is_last_def)
  then show ?thesis
    using assms(2,3,4)
    by (simp add: consolidate_def list_update_last split: prod.splits)
qed

lemma consolidate_negative:
  assumes "previous_card st = Some P"
    and "should_merge_cards E (processor st) P N = (Inr decision, p1)" "\<not> truthy decision"
  shows "consolidate E st N =
           Inr \<lparr>final_cards = final_cards st @ [N], previous_card = Some N, processor = p1\<rparr>"
  using assms by (simp add: consolidate_def)

lemma consolidate_keeps_last:
  assumes "previous_is_last st" "consolidate E st N = Inr st'"
  shows "previous_is_last st'"
proof (cases "previous_card st")
  case None
  with assms(2) show ?thesis
    by (auto simp: consolidate_first previous_is_last_def)
next
  case (Some P)
  obtain r p1 where s: "should_merge_cards E (processor st) P N = (r, p1)"
    by (cases "should_merge_cards E (processor st) P N")
  show ?thesis
  proof (cases r)
    case (Inl e)
    with assms(2) Some s show ?thesis by (simp add: consolidate_def)
  next
    case (Inr decision)
    show ?thesis
    proof (cases "truthy decision")
      case True
      from consolidate_positive [OF assms(1) Some s [unfolded Inr] True] assms(2)
      show ?thesis by (auto simp: previous_is_last_def)
    next
      case False
      from consolidate_negative [OF Some s [unfolded Inr] False] assms(2)
      show ?thesis by (auto simp: previous_is_last_def)
    qed
  qed
qed

lemma merging_body_keeps_last:
  assumes "previous_is_last st" "merging_body E all_observations chunk_start st = Inr st'"
  shows "previous_is_last st'"
proof (cases "chunk_observations all_observations chunk_start (chunk_start + 15 * 60) = []")
  case True
  with assms show ?thesis by (simp add: merging_body_def)
next
  case False
  obtain r p where
    g: "generate_activity_cards E (processor st)
          (map to_observation
             (chunk_observations all_observations chunk_start (chunk_start + 15 * 60))) = (r, p)"
    by (cases "generate_activity_cards E (processor st)
          (map to_observation
             (chunk_observations all_observations chunk_start (chunk_start + 15 * 60)))")
  have i: "previous_is_last (st\<lparr>processor := p\<rparr>)"
    using assms(1) by (auto simp: previous_is_last_def split: option.splits)
  from assms(2) False
  have pw: "print_window E chunk_start (chunk_start + 15 * 60) = None"
    by (cases "print_window E chunk_start (chunk_start + 15 * 60)")
       (simp_all add: merging_body_def)
  show ?thesis
  proof (cases r)
    case (Inl e)
    with assms(2) False g pw show ?thesis by (simp add: merging_body_def)
  next
    case (Inr cards)
    show ?thesis
    proof (cases cards)
      case Nil
      with assms(2) False g Inr i pw show ?thesis by (auto simp: merging_body_def)
    next
      case (Cons new_card rest)
      with assms(2) False g Inr pw
      have "consolidate E (st\<lparr>processor := p\<rparr>) new_card = Inr st'"
        by (simp add: merging_body_def)
      with i show ?thesis by (rule consolidate_keeps_last)
    qed
  qed
qed

lemma merging_loop_keeps_last:
  "previous_is_last st \<Longrightarrow> merging_loop E all_observations stream_end chunk_start st = Inr st' \<Longrightarrow>
     previous_is_last st'"
proof (induction E all_observations stream_end chunk_start st rule: merging_loop.induct)
  case (1 E all_observations stream_end chunk_start st)
  show ?case
  proof (cases "chunk_start < stream_end")
    case False
    with "1.prems" show ?thesis by simp
  next
    case True
    show ?thesis
    proof (cases "merging_body E all_observations chunk_start st")
      case (Inl e)
      with True "1.prems"(2) show ?thesis by simp
    next
      case (Inr st1)
      with True "1.prems"(2)
      have l: "merging_loop E all_observations stream_end (chunk_start + 15 * 60) st1 = Inr st'"
        by simp
      from merging_body_keeps_last [OF "1.prems"(1) Inr] have "previous_is_last st1" .
      from "1.IH" [OF True Inr this l] show ?thesis .
    qed
  qed
qed

text \<open>
  Claim C10. In \<^verbatim>\<open>process_with_merging\<close> the previous card is the last element of
  \<^verbatim>\<open>final_cards\<close>: this holds at the start, every iteration of the loop keeps it, and so
  it holds of the result. Hence a positive merge decision overwrites the last element in
  place (the branch that appends the fused card is never taken): the list keeps its length,
  and \<open>P\<close>, which was its last element, is replaced by the fused card.
\<close>

theorem previous_card_is_last:
  "previous_is_last \<lparr>final_cards = [], previous_card = None, processor = p\<rparr> \<and>
   (previous_is_last st \<and> merging_body E all_observations chunk_start st = Inr st' \<longrightarrow>
      previous_is_last st') \<and>
   (process_with_merging E observations = Inr st' \<longrightarrow> previous_is_last st') \<and>
   (previous_is_last st \<and> previous_card st = Some P \<and>
    should_merge_cards E (processor st) P N = (Inr decision, p1) \<and> truthy decision \<longrightarrow>
      consolidate E st N =
        Inr \<lparr>final_cards = butlast (final_cards st) @ [fst (merge_two_cards E p1 P N)],
             previous_card = Some (fst (merge_two_cards E p1 P N)),
             processor = snd (merge_two_cards E p1 P N)\<rparr> \<and>
      length (butlast (final_cards st) @ [fst (merge_two_cards E p1 P N)]) =
        length (final_cards st) \<and>
      final_cards st = butlast (final_cards st) @ [P])"
proof (intro conjI impI)
  show init: "previous_is_last \<lparr>final_cards = [], previous_card = None, processor = p\<rparr>" for p
    by (simp add: previous_is_last_def)
  show "previous_is_last st'"
    if "previous_is_last st \<and> merging_body E all_observations chunk_start st = Inr st'"
    using that merging_body_keeps_last by blast
  show "previous_is_last st'" if "process_with_merging E observations = Inr st'"
    using that merging_loop_keeps_last [OF init]
    by (auto simp: process_with_merging_def Let_def split: if_splits)
  assume a: "previous_is_last st \<and> previous_card st = Some P \<and>
    should_merge_cards E (processor st) P N = (Inr decision, p1) \<and> truthy decision"
  then show "consolidate E st N =
        Inr \<lparr>final_cards = butlast (final_cards st) @ [fst (merge_two_cards E p1 P N)],
             previous_card = Some (fst (merge_two_cards E p1 P N)),
             processor = snd (merge_two_cards E p1 P N)\<rparr>"
    using consolidate_positive by blast
  from a have l: "final_cards st \<noteq> []" "last (final_cards st) = P"
    by (auto simp: previous_is_last_def)
  then show "length (butlast (final_cards st) @ [fst (merge_two_cards E p1 P N)]) =
        length (final_cards st)"
    by simp
  from l show "final_cards st = butlast (final_cards st) @ [P]"
    by (metis append_butlast_last_id)
qed

theorem previous_card_is_last_witness:
  "consolidate (stub_env scenario_a_client scenario_a_table)
     \<lparr>final_cards = [a_card ''9:00 AM'' ''9:15 AM'' ''Worked on the parser'' ''Edited parser.py.''],
      previous_card = Some (a_card ''9:00 AM'' ''9:15 AM'' ''Worked on the parser''
                              ''Edited parser.py.''),
      processor = new_processor\<rparr>
     (a_card ''9:15 AM'' ''9:30 AM'' ''Worked on the parser'' ''Edited parser.py.'') =
   Inr \<lparr>final_cards = [a_card ''9:00 AM'' ''9:30 AM'' ''Built the parser''
                         ''Wrote and tested the parser.''],
        previous_card = Some (a_card ''9:00 AM'' ''9:30 AM'' ''Built the parser''
                                ''Wrote and tested the parser.''),
        processor = new_processor\<lparr>sent := 2\<rparr>\<rparr> \<and>
   (case process_with_merging (stub_env scenario_a_client scenario_a_table) two_chunks of
      Inl e \<Rightarrow> False
    | Inr st \<Rightarrow> previous_is_last st \<and>
        final_cards st = [a_card ''9:00 AM'' ''9:30 AM'' ''Built the parser''
                            ''Wrote and tested the parser.''])"
proof -
  let ?E = "stub_env scenario_a_client scenario_a_table"
  let ?P = "a_card ''9:00 AM'' ''9:15 AM'' ''Worked on the parser'' ''Edited parser.py.''"
  let ?N = "a_card ''9:15 AM'' ''9:30 AM'' ''Worked on the parser'' ''Edited parser.py.''"
  let ?st = "\<lparr>final_cards = [?P], previous_card = Some ?P, processor = new_processor\<rparr>"
  note inv = previous_card_is_last [where E = ?E]
  have d: "should_merge_cards ?E new_processor ?P ?N =
             (Inr (JBool True), new_processor\<lparr>sent := Suc 0\<rparr>)"
    by code_simp
  have m: "merge_two_cards ?E (new_processor\<lparr>sent := Suc 0\<rparr>) ?P ?N =
             (a_card ''9:00 AM'' ''9:30 AM'' ''Built the parser'' ''Wrote and tested the parser.'',
              new_processor\<lparr>sent := 2\<rparr>)"
    by code_simp
  have h: "previous_is_last ?st \<and> previous_card ?st = Some ?P \<and>
           should_merge_cards ?E (processor ?st) ?P ?N =
             (Inr (JBool True), new_processor\<lparr>sent := Suc 0\<rparr>) \<and> truthy (JBool True)"
    using d by (simp add: previous_is_last_def)
  from inv [THEN conjunct2, THEN conjunct2, THEN conjunct2, rule_format, OF h, THEN conjunct1]
  have c1: "consolidate ?E ?st ?N =
              Inr \<lparr>final_cards = [a_card ''9:00 AM'' ''9:30 AM'' ''Built the parser''
                                    ''Wrote and tested the parser.''],
                   previous_card = Some (a_card ''9:00 AM'' ''9:30 AM'' ''Built the parser''
                                           ''Wrote and tested the parser.''),
                   processor = new_processor\<lparr>sent := 2\<rparr>\<rparr>"
    by (simp add: m)
  have r: "map_sum id final_cards (process_with_merging ?E two_chunks) =
             Inr [a_card ''9:00 AM'' ''9:30 AM'' ''Built the parser''
                    ''Wrote and tested the parser.'']"
    by code_simp
  then obtain st where st: "process_with_merging ?E two_chunks = Inr st"
    by (cases "process_with_merging ?E two_chunks") auto
  from inv [THEN conjunct2, THEN conjunct2, THEN conjunct1, rule_format, OF st]
  have "previous_is_last st" .
  with r st c1 show ?thesis by simp
qed

section \<open>Card Generator: the failure path\<close>

lemma dict_get_not_dict: "\<not> isinstance v ExpDict \<Longrightarrow> \<exists>e. dict_get v k d = Inl e"
  by (cases v) auto

lemma format_observations_ok:
  "list_all (formattable E) observations \<Longrightarrow> \<exists>ls. format_observations E observations = Inr ls"
proof (induction observations)
  case Nil
  then show ?case by simp
next
  case (Cons obs rest)
  then obtain ls where ls: "format_observations E rest = Inr ls" by auto
  from Cons.prems obtain s t where
    "fmt_time E (start_ts obs) = Inr s" "fmt_time E (end_ts obs) = Inr t"
    by (cases "fmt_time E (start_ts obs)"; cases "fmt_time E (end_ts obs)")
       (auto simp: formattable_def)
  with ls show ?case by simp
qed

lemma format_observations_fail:
  "\<not> list_all (formattable E) observations \<Longrightarrow> \<exists>e. format_observations E observations = Inl e"
proof (induction observations)
  case Nil
  then show ?case by simp
next
  case (Cons obs rest)
  show ?case
  proof (cases "formattable E obs")
    case True
    with Cons obtain e where "format_observations E rest = Inl e" by auto
    then show ?thesis by (auto split: sum.splits)
  next
    case False
    then show ?thesis
      by (cases "fmt_time E (start_ts obs)"; cases "fmt_time E (end_ts obs)")
         (auto simp: formattable_def)
  qed
qed

lemma card_times_ok:
  "observations \<noteq> [] \<Longrightarrow> fmt_time E (start_ts (hd observations)) = Inr cs \<Longrightarrow>
   fmt_time E (end_ts (last observations)) = Inr ce \<Longrightarrow>
   card_times E observations = Inr (cs, ce)"
  by (simp add: card_times_def)

lemma generate_activity_cards_unformattable:
  "\<not> list_all (formattable E) observations \<Longrightarrow>
   \<exists>e. generate_activity_cards E self observations = (Inl e, self)"
  using format_observations_fail [of E observations]
  by (auto simp: generate_activity_cards_def)

lemma generate_activity_cards_raise:
  "list_all (formattable E) observations \<Longrightarrow>
   infer E (sent self) (CardPrompt observations) = Inl e \<Longrightarrow>
   generate_activity_cards E self observations =
     (card_handler E observations,
      log_call (self\<lparr>sent := Suc (sent self)\<rparr>) (CardPrompt observations) []
        (Some (exn_str e)))"
  using format_observations_ok [of E observations]
  by (auto simp: generate_activity_cards_def call_ollama_def)

lemma generate_activity_cards_response:
  "list_all (formattable E) observations \<Longrightarrow>
   infer E (sent self) (CardPrompt observations) = Inr response \<Longrightarrow>
   generate_activity_cards E self observations =
     (case card_response E observations response of
        Inl e \<Rightarrow>
          (card_handler E observations,
           log_call (self\<lparr>sent := Suc (sent self)\<rparr>) (CardPrompt observations) []
             (Some (exn_str e)))
      | Inr cards \<Rightarrow>
          (Inr cards,
           log_call (self\<lparr>sent := Suc (sent self)\<rparr>) (CardPrompt observations) response None))"
  using format_observations_ok [of E observations]
  by (auto simp: generate_activity_cards_def call_ollama_def Let_def)

lemma sent_log_call: "sent (log_call self p out err) = sent self"
  by (simp add: log_call_def)

text \<open>
  Claim C4. Take a non-empty list of observations whose instants can all be formatted, so
  that the transcript is built and the request is sent (otherwise the generator raises
  before its \<^verbatim>\<open>try\<close> and there is no inference call). When the request raises, or its
  answer does not parse, or it parses to something that is not an object,
  \<^verbatim>\<open>_generate_activity_cards\<close> returns exactly one card: category \<^verbatim>\<open>Work\<close>, title
  \<^verbatim>\<open>Activity Session\<close>, summary \<^verbatim>\<open>User engaged in various activities.\<close>, from the
  formatted start of the first observation to the formatted end of the last; one request
  has been sent.
\<close>

theorem card_generation_fallback:
  assumes "observations \<noteq> []"
    and "list_all (formattable E) observations"
    and "fmt_time E (start_ts (hd observations)) = Inr card_start"
    and "fmt_time E (end_ts (last observations)) = Inr card_end"
    and "infer E (sent self) (CardPrompt observations) = Inl e \<or>
         (\<exists>response. infer E (sent self) (CardPrompt observations) = Inr response \<and>
            ((\<exists>e'. parse_json_from_response E response (Some ExpDict) = Inl e') \<or>
             (\<exists>v. parse_json_from_response E response (Some ExpDict) = Inr v \<and>
                  \<not> isinstance v ExpDict)))"
  shows "fst (generate_activity_cards E self observations) =
           Inr [\<lparr>start_time = JStr card_start,
                 end_time = JStr card_end,
                 category = JStr ''Work'',
                 title = JStr ''Activity Session'',
                 summary = JStr ''User engaged in various activities.''\<rparr>] \<and>
         sent (snd (generate_activity_cards E self observations)) = Suc (sent self)"
proof -
  have times: "card_times E observations = Inr (card_start, card_end)"
    using assms(1,3,4) by (rule card_times_ok)
  then have handler:
    "card_handler E observations = Inr [fallback_card card_start card_end]"
    by (simp add: card_handler_def)
  from assms(5)
  have "\<exists>err. generate_activity_cards E self observations =
          (card_handler E observations,
           log_call (self\<lparr>sent := Suc (sent self)\<rparr>) (CardPrompt observations) [] (Some err))"
  proof (elim disjE exE conjE)
    assume "infer E (sent self) (CardPrompt observations) = Inl e"
    then show ?thesis using generate_activity_cards_raise [OF assms(2)] by blast
  next
    fix response e'
    assume "infer E (sent self) (CardPrompt observations) = Inr response"
      and "parse_json_from_response E response (Some ExpDict) = Inl e'"
    then have "generate_activity_cards E self observations =
          (card_handler E observations,
           log_call (self\<lparr>sent := Suc (sent self)\<rparr>) (CardPrompt observations) []
             (Some (exn_str e')))"
      by (simp add: generate_activity_cards_response [OF assms(2)] card_response_def)
    then show ?thesis by blast
  next
    fix response v
    assume r: "infer E (sent self) (CardPrompt observations) = Inr response"
      and p: "parse_json_from_response E response (Some ExpDict) = Inr v"
      and "\<not> isinstance v ExpDict"
    then obtain e' where "dict_get v ''title'' (JStr ''Activity Session'') = Inl e'"
      using dict_get_not_dict by blast
    with p times have "card_response E observations response = Inl e'"
      by (simp add: card_response_def)
    with r have "generate_activity_cards E self observations =
          (card_handler E observations,
           log_call (self\<lparr>sent := Suc (sent self)\<rparr>) (CardPrompt observations) []
             (Some (exn_str e')))"
      by (simp add: generate_activity_cards_response [OF assms(2)])
    then show ?thesis by blast
  qed
  with handler show ?thesis by (auto simp: fallback_card_def sent_log_call)
qed

theorem card_generation_fallback_witness:
  "fst (generate_activity_cards (stub_env failing_client []) new_processor
          [an_observation 32400 32700 ''Editing main.py'',
           an_observation 32700 33300 ''Running the tests'']) =
     Inr [\<lparr>start_time = JStr ''9:00 AM'', end_time = JStr ''9:15 AM'',
           category = JStr ''Work'', title = JStr ''Activity Session'',
           summary = JStr ''User engaged in various activities.''\<rparr>] \<and>
   sent (snd (generate_activity_cards (stub_env failing_client []) new_processor
          [an_observation 32400 32700 ''Editing main.py'',
           an_observation 32700 33300 ''Running the tests''])) = 1"
proof -
  let ?E = "stub_env failing_client []"
  let ?obs = "[an_observation 32400 32700 ''Editing main.py'',
               an_observation 32700 33300 ''Running the tests'']"
  have ne: "?obs \<noteq> []" by simp
  have fo: "list_all (formattable ?E) ?obs" by code_simp
  have t: "fmt_time ?E (start_ts (hd ?obs)) = Inr ''9:00 AM''"
          "fmt_time ?E (end_ts (last ?obs)) = Inr ''9:15 AM''"
    by code_simp+
  have h: "infer ?E (sent new_processor) (CardPrompt ?obs) =
             Inl (RequestException ''connection refused'') \<or>
           (\<exists>response. infer ?E (sent new_processor) (CardPrompt ?obs) = Inr response \<and>
              ((\<exists>e'. parse_json_from_response ?E response (Some ExpDict) = Inl e') \<or>
               (\<exists>v. parse_json_from_response ?E response (Some ExpDict) = Inr v \<and>
                    \<not> isinstance v ExpDict)))"
    by (simp add: stub_env_def failing_client_def)
  from card_generation_fallback [OF ne fo t h] show ?thesis
    by (simp add: new_processor_def)
qed

section \<open>Card Generator: the card of a chunk\<close>

lemma formattable_to_observation [simp]:
  "formattable E (to_observation obs) = formattable E obs"
  by (simp add: formattable_def to_observation_def)

lemma card_response_single:
  "card_response E observations response = Inr cards \<Longrightarrow>
     \<exists>cs ce t s. card_times E observations = Inr (cs, ce) \<and>
       cards = [\<lparr>start_time = JStr cs, end_time = JStr ce, category = JStr ''Work'',
                 title = t, summary = s\<rparr>]"
  by (auto simp: card_response_def split: sum.splits prod.splits)

lemma card_handler_single:
  "card_handler E observations = Inr cards \<Longrightarrow>
     \<exists>cs ce. card_times E observations = Inr (cs, ce) \<and>
       cards = [\<lparr>start_time = JStr cs, end_time = JStr ce, category = JStr ''Work'',
                 title = JStr ''Activity Session'',
                 summary = JStr ''User engaged in various activities.''\<rparr>]"
  by (auto simp: card_handler_def fallback_card_def split: sum.splits prod.splits)

lemma card_times_Inr:
  "card_times E observations = Inr (cs, ce) \<Longrightarrow>
     observations \<noteq> [] \<and> fmt_time E (start_ts (hd observations)) = Inr cs \<and>
     fmt_time E (end_ts (last observations)) = Inr ce"
  by (auto simp: card_times_def split: if_splits sum.splits)

lemma generate_activity_cards_effect:
  assumes "list_all (formattable E) observations"
  shows "\<exists>out err. snd (generate_activity_cards E self observations) =
           log_call (self\<lparr>sent := Suc (sent self)\<rparr>) (CardPrompt observations) out err"
proof (cases "infer E (sent self) (CardPrompt observations)")
  case (Inl e)
  from generate_activity_cards_raise [OF assms Inl] show ?thesis by auto
next
  case (Inr response)
  from generate_activity_cards_response [OF assms Inr] show ?thesis
    by (cases "card_response E observations response") auto
qed

lemma generate_activity_cards_Inr:
  assumes "generate_activity_cards E self observations = (Inr cards, p)"
  shows "list_all (formattable E) observations \<and>
         (\<exists>cs ce t s. card_times E observations = Inr (cs, ce) \<and>
            cards = [\<lparr>start_time = JStr cs, end_time = JStr ce, category = JStr ''Work'',
                      title = t, summary = s\<rparr>])"
proof -
  have f: "list_all (formattable E) observations"
    using assms generate_activity_cards_unformattable [of E observations self] by auto
  have "\<exists>cs ce t s. card_times E observations = Inr (cs, ce) \<and>
            cards = [\<lparr>start_time = JStr cs, end_time = JStr ce, category = JStr ''Work'',
                      title = t, summary = s\<rparr>]"
  proof (cases "infer E (sent self) (CardPrompt observations)")
    case (Inl e)
    from generate_activity_cards_raise [OF f Inl] assms
    have "card_handler E observations = Inr cards" by simp
    from card_handler_single [OF this] show ?thesis by blast
  next
    case (Inr response)
    note r = generate_activity_cards_response [OF f Inr]
    show ?thesis
    proof (cases "card_response E observations response")
      case (Inl e)
      with r assms have "card_handler E observations = Inr cards" by simp
      from card_handler_single [OF this] show ?thesis by blast
    next
      case cr: (Inr cards')
      with r assms have "cards' = cards" by simp
      with card_response_single [OF cr] show ?thesis by blast
    qed
  qed
  with f show ?thesis by simp
qed

lemma merge_two_cards_end: "end_time (fst (merge_two_cards E self P N)) = end_time N"
  by (auto simp: merge_two_cards_def call_ollama_def fuse_fallback_def
           split: sum.splits dest: fuse_response_bounds)

lemma should_merge_cards_processor:
  "should_merge_cards E self P N = (r, p) \<Longrightarrow>
     llm_calls p = llm_calls self \<and> sent self \<le> sent p"
  by (auto simp: should_merge_cards_def call_ollama_def split: sum.splits if_splits)

lemma merge_two_cards_processor:
  "merge_two_cards E self P N = (c, p) \<Longrightarrow>
     llm_calls p = llm_calls self \<and> sent self \<le> sent p"
  by (auto simp: merge_two_cards_def call_ollama_def split: sum.splits)

lemma consolidate_effect:
  assumes "consolidate E st N = Inr st'"
  shows "final_cards st' \<noteq> [] \<and> end_time (last (final_cards st')) = end_time N \<and>
         llm_calls (processor st') = llm_calls (processor st) \<and>
         sent (processor st) \<le> sent (processor st')"
proof (cases "previous_card st")
  case None
  with assms show ?thesis by (auto simp: consolidate_first)
next
  case (Some P)
  obtain r p1 where s: "should_merge_cards E (processor st) P N = (r, p1)"
    by (cases "should_merge_cards E (processor st) P N")
  note sp = should_merge_cards_processor [OF s]
  show ?thesis
  proof (cases r)
    case (Inl e)
    with assms Some s show ?thesis by (simp add: consolidate_def)
  next
    case (Inr decision)
    show ?thesis
    proof (cases "truthy decision")
      case False
      from consolidate_negative [OF Some s [unfolded Inr] False] assms sp
      show ?thesis by auto
    next
      case True
      obtain m p2 where m: "merge_two_cards E p1 P N = (m, p2)"
        by (cases "merge_two_cards E p1 P N")
      note mp = merge_two_cards_processor [OF m]
      from m have me: "end_time m = end_time N"
        using merge_two_cards_end [of E p1 P N] by simp
      show ?thesis
      proof (cases "final_cards st \<noteq> [] \<and> last (final_cards st) = P")
        case True
        with assms Some s Inr \<open>truthy decision\<close> m
        have "st' = \<lparr>final_cards = butlast (final_cards st) @ [m],
                     previous_card = Some m, processor = p2\<rparr>"
          by (simp add: consolidate_def list_update_last)
        with me sp mp show ?thesis by simp
      next
        case False
        with assms Some s Inr \<open>truthy decision\<close> m
        have "st' = \<lparr>final_cards = final_cards st @ [m],
                     previous_card = Some m, processor = p2\<rparr>"
          by (auto simp: consolidate_def)
        with me sp mp show ?thesis by simp
      qed
    qed
  qed
qed

section \<open>Chunk Scheduler: the windows of the two loops\<close>

lemma consolidate_one_more:
  assumes "consolidate E st N = Inr st'"
  shows "length (final_cards st') \<le> Suc (length (final_cards st))"
proof (cases "previous_card st")
  case None
  with assms show ?thesis by (auto simp: consolidate_first)
next
  case (Some P)
  with assms show ?thesis
    by (auto simp: consolidate_def split: prod.splits sum.splits if_splits)
qed

lemma merging_body_empty:
  "chunk_observations all_observations chunk_start (chunk_start + 15 * 60) = [] \<Longrightarrow>
     merging_body E all_observations chunk_start st = Inr st"
  by (simp add: merging_body_def)

lemma chunk_body_empty:
  "chunk_observations observations chunk_start (chunk_start + d * 60) = [] \<Longrightarrow>
     chunk_body E observations d c chunk_start st = Inr st"
  by (simp add: chunk_body_def)

lemma merging_body_nonempty:
  "chunk_observations all_observations chunk_start (chunk_start + 15 * 60) \<noteq> [] \<Longrightarrow>
   merging_body E all_observations chunk_start st =
     (case print_window E chunk_start (chunk_start + 15 * 60) of
        Some e \<Rightarrow> Inl e
      | None \<Rightarrow>
          (case generate_activity_cards E (processor st)
                  (map to_observation
                     (filter (\<lambda>obs. start_ts obs < chunk_start + 15 * 60 \<and>
                                     end_ts obs > chunk_start) all_observations)) of
             (Inl e, p) \<Rightarrow> Inl e
           | (Inr cards, p) \<Rightarrow>
               (case cards of
                  [] \<Rightarrow> Inr (st\<lparr>processor := p\<rparr>)
                | new_card # rest \<Rightarrow> consolidate E (st\<lparr>processor := p\<rparr>) new_card)))"
  by (simp only: merging_body_def chunk_observations_def Let_def if_False)

lemma chunk_body_nonempty:
  "chunk_observations observations chunk_start (chunk_start + d * 60) \<noteq> [] \<Longrightarrow>
   chunk_body E observations d c chunk_start st =
     (case print_window E chunk_start (chunk_start + d * 60) of
        Some e \<Rightarrow> Inl e
      | None \<Rightarrow>
          (case generate_activity_cards_with_context E (chunk_processor st)
                  (map to_observation
                     (filter (\<lambda>obs. start_ts obs < chunk_start + d * 60 \<and>
                                     end_ts obs > chunk_start) observations))
                  (filter (\<lambda>obs. start_ts obs \<ge> chunk_start - c * 60 \<and>
                                  end_ts obs \<le> chunk_start) observations)
                  (filter (\<lambda>crd. truthy (start_time crd)) (all_cards st)) of
             (Inl e, p) \<Rightarrow> Inl e
           | (Inr cards, p) \<Rightarrow>
               Inr \<lparr>all_cards = all_cards st @ cards, chunk_processor = p\<rparr>))"
  by (simp only: chunk_body_def chunk_observations_def Let_def if_False)

lemma with_context_sent:
  "generate_activity_cards_with_context E self observations cobs ccards = (Inr cards, p) \<Longrightarrow>
     sent p = Suc (sent self)"
  by (auto simp: generate_activity_cards_with_context_def call_ollama_def
           split: sum.splits)

lemma last_map_to_observation:
  "sel \<noteq> [] \<Longrightarrow> end_ts (last (map to_observation sel)) = end_ts (last sel)"
  by (simp add: last_map to_observation_def)

lemma merging_body_window:
  assumes ne: "chunk_observations all_observations chunk_start (chunk_start + 15 * 60) \<noteq> []"
    and body: "merging_body E all_observations chunk_start st = Inr st'"
  shows "(\<exists>out err.
            llm_calls (processor st') =
              llm_calls (processor st) @
              [\<lparr>call_input =
                  CardPrompt
                    (map to_observation
                       (filter (\<lambda>obs. start_ts obs < chunk_start + 15 * 60 \<and>
                                       end_ts obs > chunk_start) all_observations)),
                call_output = out, call_error = err\<rparr>]) \<and>
         sent (processor st) < sent (processor st') \<and>
         final_cards st' \<noteq> [] \<and>
         (\<exists>ce. fmt_time E
                  (end_ts (last (filter (\<lambda>obs. start_ts obs < chunk_start + 15 * 60 \<and>
                                                end_ts obs > chunk_start) all_observations))) =
                 Inr ce \<and>
               end_time (last (final_cards st')) = JStr ce)"
proof -
  define sel where
    "sel = filter (\<lambda>obs. start_ts obs < chunk_start + 15 * 60 \<and> end_ts obs > chunk_start)
             all_observations"
  define pw where "pw = print_window E chunk_start (chunk_start + 15 * 60)"
  from ne have sel: "sel \<noteq> []" by (simp add: chunk_observations_def sel_def)
  note eq = merging_body_nonempty [OF ne, of E st, folded sel_def pw_def]
  obtain r p where g: "generate_activity_cards E (processor st) (map to_observation sel) = (r, p)"
    by (cases "generate_activity_cards E (processor st) (map to_observation sel)")
  from body eq g have pwn: "pw = None"
    by (cases pw) simp_all
  from body eq g pwn obtain cards where r: "r = Inr cards"
    by (cases r) simp_all
  from generate_activity_cards_Inr [OF g [unfolded r]] obtain cs ce t s where
    f: "list_all (formattable E) (map to_observation sel)" and
    ct: "card_times E (map to_observation sel) = Inr (cs, ce)" and
    cards: "cards = [\<lparr>start_time = JStr cs, end_time = JStr ce, category = JStr ''Work'',
                      title = t, summary = s\<rparr>]"
    by blast
  from body eq g pwn r cards
  have c: "consolidate E (st\<lparr>processor := p\<rparr>)
             \<lparr>start_time = JStr cs, end_time = JStr ce, category = JStr ''Work'',
              title = t, summary = s\<rparr> = Inr st'"
    by simp
  from consolidate_effect [OF c]
  have ce1: "final_cards st' \<noteq> []" "end_time (last (final_cards st')) = JStr ce"
    "llm_calls (processor st') = llm_calls p" "sent p \<le> sent (processor st')"
    by simp_all
  from generate_activity_cards_effect [OF f, of "processor st"] g obtain out err where
    p: "p = log_call ((processor st)\<lparr>sent := Suc (sent (processor st))\<rparr>)
              (CardPrompt (map to_observation sel)) out err"
    by auto
  from card_times_Inr [OF ct]
  have "fmt_time E (end_ts (last (map to_observation sel))) = Inr ce" by blast
  with sel have fe: "fmt_time E (end_ts (last sel)) = Inr ce"
    by (simp add: last_map_to_observation)
  from p ce1(3) have l: "llm_calls (processor st') =
      llm_calls (processor st) @
      [\<lparr>call_input = CardPrompt (map to_observation sel), call_output = out,
        call_error = err\<rparr>]"
    by (simp add: log_call_def)
  from p ce1(4) have n: "sent (processor st) < sent (processor st')"
    by (simp add: log_call_def)
  from l n ce1(1,2) fe show ?thesis
    unfolding sel_def by blast
qed

lemma chunk_body_window:
  assumes ne: "chunk_observations observations chunk_start (chunk_start + d * 60) \<noteq> []"
    and body: "chunk_body E observations d c chunk_start st = Inr st'"
  shows "sent (chunk_processor st') = Suc (sent (chunk_processor st))"
proof -
  note eq = chunk_body_nonempty [OF ne, of E c st]
  let ?g = "generate_activity_cards_with_context E (chunk_processor st)
              (map to_observation
                 (filter (\<lambda>obs. start_ts obs < chunk_start + d * 60 \<and>
                                 end_ts obs > chunk_start) observations))
              (filter (\<lambda>obs. start_ts obs \<ge> chunk_start - c * 60 \<and>
                              end_ts obs \<le> chunk_start) observations)
              (filter (\<lambda>crd. truthy (start_time crd)) (all_cards st))"
  obtain r p where g: "?g = (r, p)" by (cases ?g)
  from body eq g have pw: "print_window E chunk_start (chunk_start + d * 60) = None"
    by (cases "print_window E chunk_start (chunk_start + d * 60)") simp_all
  from body eq g pw obtain cards where r: "r = Inr cards"
    by (cases r) simp_all
  from body eq g pw r have "chunk_processor st' = p" by auto
  with with_context_sent [OF g [unfolded r]] show ?thesis by simp
qed

lemma merging_body_one_more:
  assumes "merging_body E all_observations chunk_start st = Inr st'"
  shows "length (final_cards st') \<le>
           length (final_cards st) +
           (if chunk_observations all_observations chunk_start (chunk_start + 15 * 60) = []
            then 0 else 1)"
proof (cases "chunk_observations all_observations chunk_start (chunk_start + 15 * 60) = []")
  case True
  with assms show ?thesis by (simp add: merging_body_def)
next
  case False
  note eq = merging_body_nonempty [OF False, of E st]
  let ?g = "generate_activity_cards E (processor st)
              (map to_observation
                 (filter (\<lambda>obs. start_ts obs < chunk_start + 15 * 60 \<and>
                                 end_ts obs > chunk_start) all_observations))"
  obtain r p where g: "?g = (r, p)" by (cases ?g)
  from assms eq g have pw: "print_window E chunk_start (chunk_start + 15 * 60) = None"
    by (cases "print_window E chunk_start (chunk_start + 15 * 60)") simp_all
  show ?thesis
  proof (cases r)
    case (Inl e)
    with assms eq g pw show ?thesis by simp
  next
    case (Inr cards)
    show ?thesis
    proof (cases cards)
      case Nil
      with assms eq g pw Inr show ?thesis by auto
    next
      case (Cons new_card rest)
      with assms eq g pw Inr have "consolidate E (st\<lparr>processor := p\<rparr>) new_card = Inr st'"
        by simp
      from consolidate_one_more [OF this] False show ?thesis by simp
    qed
  qed
qed

lemma merging_loop_cards:
  "merging_loop E all_observations stream_end chunk_start st = Inr st' \<Longrightarrow>
     length (final_cards st') \<le>
       length (final_cards st) + nonempty_windows all_observations stream_end chunk_start"
proof (induction E all_observations stream_end chunk_start st rule: merging_loop.induct)
  case (1 E all_observations stream_end chunk_start st)
  show ?case
  proof (cases "chunk_start < stream_end")
    case False
    with "1.prems" show ?thesis by simp
  next
    case True
    show ?thesis
    proof (cases "merging_body E all_observations chunk_start st")
      case (Inl e)
      with True "1.prems" show ?thesis by simp
    next
      case (Inr st1)
      with True "1.prems"
      have l: "merging_loop E all_observations stream_end (chunk_start + 15 * 60) st1 = Inr st'"
        by simp
      from "1.IH" [OF True Inr l] merging_body_one_more [OF Inr] True
      show ?thesis
        by (subst nonempty_windows.simps) simp
    qed
  qed
qed

text \<open>
  Claim C8. Each window selects exactly the observations with
  \<open>start_ts < chunk_end\<close> and \<open>end_ts > chunk_start\<close>. In both drivers a window that
  selects nothing leaves the state as it is (no card, no request) and the loop goes on from
  the next window. A window that selects something hands exactly its selection to the card
  generator: in \<^verbatim>\<open>process_with_merging\<close> the call that is logged has the selection as its
  input, a request has been sent, and the last card of the timeline ends at the formatted
  end of the last selected observation; in \<^verbatim>\<open>process_observations_in_chunks\<close> one
  request has been sent. So \<^verbatim>\<open>process_with_merging\<close> ends with at most one card for
  each window that selects something.
\<close>

theorem windows_selected_or_skipped:
  "set (chunk_observations all_observations chunk_start chunk_end) =
     {obs \<in> set all_observations. start_ts obs < chunk_end \<and> end_ts obs > chunk_start} \<and>
   (chunk_observations all_observations chunk_start (chunk_start + 15 * 60) = [] \<and>
    chunk_start < stream_end \<longrightarrow>
      merging_body E all_observations chunk_start st = Inr st \<and>
      merging_loop E all_observations stream_end chunk_start st =
        merging_loop E all_observations stream_end (chunk_start + 15 * 60) st) \<and>
   (chunk_observations all_observations chunk_start (chunk_start + d * 60) = [] \<and>
    chunk_start < stream_end \<longrightarrow>
      chunk_body E all_observations d c chunk_start cst = Inr cst \<and>
      chunk_loop E all_observations d c stream_end chunk_start cst =
        chunk_loop E all_observations d c stream_end (chunk_start + d * 60) cst) \<and>
   (chunk_observations all_observations chunk_start (chunk_start + 15 * 60) \<noteq> [] \<longrightarrow>
      merging_body E all_observations chunk_start st =
        (case print_window E chunk_start (chunk_start + 15 * 60) of
           Some e \<Rightarrow> Inl e
         | None \<Rightarrow>
             (case generate_activity_cards E (processor st)
                     (map to_observation
                        (filter (\<lambda>obs. start_ts obs < chunk_start + 15 * 60 \<and>
                                        end_ts obs > chunk_start) all_observations)) of
                (Inl e, p) \<Rightarrow> Inl e
              | (Inr cards, p) \<Rightarrow>
                  (case cards of
                     [] \<Rightarrow> Inr (st\<lparr>processor := p\<rparr>)
                   | new_card # rest \<Rightarrow> consolidate E (st\<lparr>processor := p\<rparr>) new_card)))) \<and>
   (chunk_observations all_observations chunk_start (chunk_start + 15 * 60) \<noteq> [] \<and>
    merging_body E all_observations chunk_start st = Inr st' \<longrightarrow>
      (\<exists>out err.
          llm_calls (processor st') =
            llm_calls (processor st) @
            [\<lparr>call_input =
                CardPrompt
                  (map to_observation
                     (filter (\<lambda>obs. start_ts obs < chunk_start + 15 * 60 \<and>
                                     end_ts obs > chunk_start) all_observations)),
              call_output = out, call_error = err\<rparr>]) \<and>
      sent (processor st) < sent (processor st') \<and>
      final_cards st' \<noteq> [] \<and>
      (\<exists>ce. fmt_time E
               (end_ts (last (filter (\<lambda>obs. start_ts obs < chunk_start + 15 * 60 \<and>
                                             end_ts obs > chunk_start) all_observations))) =
              Inr ce \<and>
            end_time (last (final_cards st')) = JStr ce)) \<and>
   (chunk_observations all_observations chunk_start (chunk_start + d * 60) \<noteq> [] \<longrightarrow>
      chunk_body E all_observations d c chunk_start cst =
        (case print_window E chunk_start (chunk_start + d * 60) of
           Some e \<Rightarrow> Inl e
         | None \<Rightarrow>
             (case generate_activity_cards_with_context E (chunk_processor cst)
                     (map to_observation
                        (filter (\<lambda>obs. start_ts obs < chunk_start + d * 60 \<and>
                                        end_ts obs > chunk_start) all_observations))
                     (filter (\<lambda>obs. start_ts obs \<ge> chunk_start - c * 60 \<and>
                                     end_ts obs \<le> chunk_start) all_observations)
                     (filter (\<lambda>crd. truthy (start_time crd)) (all_cards cst)) of
                (Inl e, p) \<Rightarrow> Inl e
              | (Inr cards, p) \<Rightarrow>
                  Inr \<lparr>all_cards = all_cards cst @ cards, chunk_processor = p\<rparr>))) \<and>
   (chunk_observations all_observations chunk_start (chunk_start + d * 60) \<noteq> [] \<and>
    chunk_body E all_observations d c chunk_start cst = Inr cst' \<longrightarrow>
      sent (chunk_processor cst') = Suc (sent (chunk_processor cst))) \<and>
   (process_with_merging E observations = Inr st' \<longrightarrow>
      length (final_cards st') \<le>
        nonempty_windows (sort_key start_ts observations)
          (end_ts (last (sort_key start_ts observations)))
          (start_ts (hd (sort_key start_ts observations))))"
proof (intro conjI impI)
  show "set (chunk_observations all_observations chunk_start chunk_end) =
     {obs \<in> set all_observations. start_ts obs < chunk_end \<and> end_ts obs > chunk_start}"
    by (auto simp: chunk_observations_def)
next
  assume a: "chunk_observations all_observations chunk_start (chunk_start + 15 * 60) = [] \<and>
    chunk_start < stream_end"
  then show b: "merging_body E all_observations chunk_start st = Inr st"
    by (simp add: merging_body_empty)
  from a b show "merging_loop E all_observations stream_end chunk_start st =
        merging_loop E all_observations stream_end (chunk_start + 15 * 60) st"
    by (subst merging_loop.simps) simp
next
  assume a: "chunk_observations all_observations chunk_start (chunk_start + d * 60) = [] \<and>
    chunk_start < stream_end"
  then show b: "chunk_body E all_observations d c chunk_start cst = Inr cst"
    by (simp add: chunk_body_empty)
  from a b show "chunk_loop E all_observations d c stream_end chunk_start cst =
        chunk_loop E all_observations d c stream_end (chunk_start + d * 60) cst"
    by (subst chunk_loop.simps) simp
next
  assume "chunk_observations all_observations chunk_start (chunk_start + 15 * 60) \<noteq> []"
  then show "merging_body E all_observations chunk_start st =
        (case print_window E chunk_start (chunk_start + 15 * 60) of
           Some e \<Rightarrow> Inl e
         | None \<Rightarrow>
             (case generate_activity_cards E (processor st)
                     (map to_observation
                        (filter (\<lambda>obs. start_ts obs < chunk_start + 15 * 60 \<and>
                                        end_ts obs > chunk_start) all_observations)) of
                (Inl e, p) \<Rightarrow> Inl e
              | (Inr cards, p) \<Rightarrow>
                  (case cards of
                     [] \<Rightarrow> Inr (st\<lparr>processor := p\<rparr>)
                   | new_card # rest \<Rightarrow> consolidate E (st\<lparr>processor := p\<rparr>) new_card)))"
    by (rule merging_body_nonempty)
next
  assume a: "chunk_observations all_observations chunk_start (chunk_start + 15 * 60) \<noteq> [] \<and>
    merging_body E all_observations chunk_start st = Inr st'"
  note w = merging_body_window [OF conjunct1 [OF a] conjunct2 [OF a]]
  from w show "\<exists>out err.
          llm_calls (processor st') =
            llm_calls (processor st) @
            [\<lparr>call_input =
                CardPrompt
                  (map to_observation
                     (filter (\<lambda>obs. start_ts obs < chunk_start + 15 * 60 \<and>
                                     end_ts obs > chunk_start) all_observations)),
              call_output = out, call_error = err\<rparr>]"
    by (rule conjunct1)
  from w show "sent (processor st) < sent (processor st')" by blast
  from w show "final_cards st' \<noteq> []" by blast
  from w show "\<exists>ce. fmt_time E
               (end_ts (last (filter (\<lambda>obs. start_ts obs < chunk_start + 15 * 60 \<and>
                                             end_ts obs > chunk_start) all_observations))) =
              Inr ce \<and>
            end_time (last (final_cards st')) = JStr ce"
    by blast
next
  assume "chunk_observations all_observations chunk_start (chunk_start + d * 60) \<noteq> []"
  then show "chunk_body E all_observations d c chunk_start cst =
        (case print_window E chunk_start (chunk_start + d * 60) of
           Some e \<Rightarrow> Inl e
         | None \<Rightarrow>
             (case generate_activity_cards_with_context E (chunk_processor cst)
                     (map to_observation
                        (filter (\<lambda>obs. start_ts obs < chunk_start + d * 60 \<and>
                                        end_ts obs > chunk_start) all_observations))
                     (filter (\<lambda>obs. start_ts obs \<ge> chunk_start - c * 60 \<and>
                                     end_ts obs \<le> chunk_start) all_observations)
                     (filter (\<lambda>crd. truthy (start_time crd)) (all_cards cst)) of
                (Inl e, p) \<Rightarrow> Inl e
              | (Inr cards, p) \<Rightarrow>
                  Inr \<lparr>all_cards = all_cards cst @ cards, chunk_processor = p\<rparr>))"
    by (rule chunk_body_nonempty)
next
  assume "chunk_observations all_observations chunk_start (chunk_start + d * 60) \<noteq> [] \<and>
    chunk_body E all_observations d c chunk_start cst = Inr cst'"
  then show "sent (chunk_processor cst') = Suc (sent (chunk_processor cst))"
    using chunk_body_window by blast
next
  assume p: "process_with_merging E observations = Inr st'"
  let ?all = "sort_key start_ts observations"
  show "length (final_cards st') \<le>
        nonempty_windows ?all (end_ts (last ?all)) (start_ts (hd ?all))"
  proof (cases "?all = []")
    case True
    with p show ?thesis
      by (simp add: process_with_merging_def Let_def del: merging_loop.simps)
  next
    case False
    with p have "merging_loop E ?all (end_ts (last ?all)) (start_ts (hd ?all))
                   \<lparr>final_cards = [], previous_card = None, processor = new_processor\<rparr> =
                 Inr st'"
      by (simp add: process_with_merging_def Let_def del: merging_loop.simps)
    from merging_loop_cards [OF this] show ?thesis by simp
  qed
qed

theorem windows_selected_or_skipped_witness:
  "chunk_observations gap_stream 33300 34200 = [] \<and>
   merging_loop (stub_env failing_client []) gap_stream 36600 33300
       \<lparr>final_cards = [], previous_card = None, processor = new_processor\<rparr> =
     merging_loop (stub_env failing_client []) gap_stream 36600 34200
       \<lparr>final_cards = [], previous_card = None, processor = new_processor\<rparr> \<and>
   chunk_loop (stub_env failing_client []) gap_stream 15 30 36600 33300
       \<lparr>all_cards = [], chunk_processor = new_processor\<rparr> =
     chunk_loop (stub_env failing_client []) gap_stream 15 30 36600 34200
       \<lparr>all_cards = [], chunk_processor = new_processor\<rparr> \<and>
   (case merging_body (stub_env failing_client []) gap_stream 32400
           \<lparr>final_cards = [], previous_card = None, processor = new_processor\<rparr> of
      Inl e \<Rightarrow> False
    | Inr st \<Rightarrow> end_time (last (final_cards st)) = JStr ''9:10 AM'' \<and>
               0 < sent (processor st)) \<and>
   (case chunk_body (stub_env failing_client []) gap_stream 15 30 32400
           \<lparr>all_cards = [], chunk_processor = new_processor\<rparr> of
      Inl e \<Rightarrow> False
    | Inr cst \<Rightarrow> sent (chunk_processor cst) = 1) \<and>
   (case process_with_merging (stub_env failing_client []) gap_stream of
      Inl e \<Rightarrow> False
    | Inr st \<Rightarrow> length (final_cards st) \<le> 2)"
proof -
  let ?E = "stub_env failing_client []"
  let ?st = "\<lparr>final_cards = [], previous_card = None, processor = new_processor\<rparr>"
  let ?cst = "\<lparr>all_cards = [], chunk_processor = new_processor\<rparr>"
  note skip = windows_selected_or_skipped [where E = ?E and all_observations = gap_stream and
      chunk_start = 33300 and stream_end = 36600 and d = 15 and c = 30 and
      observations = gap_stream]
  note sel = windows_selected_or_skipped [where E = ?E and all_observations = gap_stream and
      chunk_start = 32400 and d = 15 and c = 30 and st = ?st and cst = ?cst]
  have e: "chunk_observations gap_stream 33300 34200 = []"
    by code_simp
  have h: "chunk_observations gap_stream 33300 (33300 + 15 * 60) = [] \<and> (33300::int) < 36600"
    using e by simp
  note s1 = skip [THEN conjunct2, THEN conjunct1, rule_format, OF h, THEN conjunct2]
  note s2 = skip [THEN conjunct2, THEN conjunct2, THEN conjunct1, rule_format, OF h,
      THEN conjunct2]
  have ne: "chunk_observations gap_stream 32400 (32400 + 15 * 60) \<noteq> []"
    by code_simp
  have "\<not> isl (merging_body ?E gap_stream 32400 ?st)"
    by code_simp
  then obtain st1 where st1: "merging_body ?E gap_stream 32400 ?st = Inr st1"
    by (cases "merging_body ?E gap_stream 32400 ?st") auto
  have fe: "fmt_time ?E
              (end_ts (last (filter (\<lambda>obs. start_ts obs < 32400 + 15 * 60 \<and> end_ts obs > 32400)
                               gap_stream))) = Inr ''9:10 AM''"
    by code_simp
  from sel [THEN conjunct2, THEN conjunct2, THEN conjunct2, THEN conjunct2, THEN conjunct1,
      rule_format, OF conjI [OF ne st1]] fe
  have m: "end_time (last (final_cards st1)) = JStr ''9:10 AM'' \<and> 0 < sent (processor st1)"
    by auto
  have ne2: "chunk_observations gap_stream 32400 (32400 + 15 * 60) \<noteq> []"
    by (rule ne)
  have "\<not> isl (chunk_body ?E gap_stream 15 30 32400 ?cst)"
    by code_simp
  then obtain cst1 where cst1: "chunk_body ?E gap_stream 15 30 32400 ?cst = Inr cst1"
    by (cases "chunk_body ?E gap_stream 15 30 32400 ?cst") auto
  from sel [THEN conjunct2, THEN conjunct2, THEN conjunct2, THEN conjunct2, THEN conjunct2,
      THEN conjunct2, THEN conjunct1, rule_format, OF conjI [OF ne2 cst1]]
  have k: "sent (chunk_processor cst1) = 1"
    by (simp add: new_processor_def)
  have n: "nonempty_windows (sort_key start_ts gap_stream)
            (end_ts (last (sort_key start_ts gap_stream)))
            (start_ts (hd (sort_key start_ts gap_stream))) = 2"
    by code_simp
  have "\<not> isl (process_with_merging ?E gap_stream)"
    by code_simp
  then obtain st where st: "process_with_merging ?E gap_stream = Inr st"
    by (cases "process_with_merging ?E gap_stream") auto
  from skip [THEN conjunct2, THEN conjunct2, THEN conjunct2, THEN conjunct2, THEN conjunct2,
      THEN conjunct2, THEN conjunct2, rule_format, OF st] n
  have "length (final_cards st) \<le> 2" by simp
  with e s1 s2 st st1 m cst1 k show ?thesis by simp
qed

section \<open>Segment Merger: what the result looks like\<close>











section \<open>Card Generator: the time bounds of a card\<close>

lemma fold_min_least: "\<forall>y \<in> set ys. (x::int) \<le> y \<Longrightarrow> fold min ys x = x"
  by (induction ys) (simp_all add: min_absorb2)

lemma fold_max_sorted: "sorted ((x::int) # ys) \<Longrightarrow> fold max ys x = last (x # ys)"
proof (induction ys arbitrary: x)
  case Nil
  then show ?case by simp
next
  case (Cons y ys)
  then have "max y x = y" by simp
  with Cons show ?case by simp
qed

lemma earliest_start_Min:
  "obs \<noteq> [] \<Longrightarrow> earliest_start obs = Min (start_ts ` set obs)"
proof -
  assume "obs \<noteq> []"
  then obtain a rest where o: "obs = a # rest" by (cases obs) auto
  have "fold min (map start_ts rest) (start_ts a) = Min (set (start_ts a # map start_ts rest))"
    by (rule Min.set_eq_fold [symmetric])
  with o show ?thesis by (simp add: earliest_start_def)
qed

lemma latest_end_Max:
  "obs \<noteq> [] \<Longrightarrow> latest_end obs = Max (end_ts ` set obs)"
proof -
  assume "obs \<noteq> []"
  then obtain a rest where o: "obs = a # rest" by (cases obs) auto
  have "fold max (map end_ts rest) (end_ts a) = Max (set (end_ts a # map end_ts rest))"
    by (rule Max.set_eq_fold [symmetric])
  with o show ?thesis by (simp add: latest_end_def)
qed

lemma first_start_earliest:
  "obs \<noteq> [] \<Longrightarrow> sorted (map start_ts obs) \<Longrightarrow> start_ts (hd obs) = earliest_start obs"
  by (cases obs) (auto simp: earliest_start_def fold_min_least)

lemma last_end_latest:
  "obs \<noteq> [] \<Longrightarrow> sorted (map end_ts obs) \<Longrightarrow> end_ts (last obs) = latest_end obs"
proof -
  assume ne: "obs \<noteq> []" and s: "sorted (map end_ts obs)"
  from ne obtain a rest where o: "obs = a # rest" by (cases obs) auto
  with s have "fold max (map end_ts rest) (end_ts a) = last (end_ts a # map end_ts rest)"
    using fold_max_sorted by simp
  also have "\<dots> = end_ts (last obs)"
    using o by (simp add: last_map)
  finally show ?thesis using o by (simp add: latest_end_def)
qed

lemma card_response_bounds:
  "card_response E observations response = Inr cards \<Longrightarrow>
   card_times E observations = Inr (cs, ce) \<Longrightarrow>
     \<exists>t s. cards = [\<lparr>start_time = JStr cs, end_time = JStr ce,
                       category = JStr ''Work'', title = t, summary = s\<rparr>]"
  by (auto simp: card_response_def split: sum.splits)

lemma generate_activity_cards_bounds:
  assumes ne: "observations \<noteq> []"
    and fm: "list_all (formattable E) observations"
    and cs: "fmt_time E (start_ts (hd observations)) = Inr cs"
    and ce: "fmt_time E (end_ts (last observations)) = Inr ce"
  shows "\<exists>t s. fst (generate_activity_cards E self observations) =
           Inr [\<lparr>start_time = JStr cs, end_time = JStr ce,
                 category = JStr ''Work'', title = t, summary = s\<rparr>]"
proof -
  have ct: "card_times E observations = Inr (cs, ce)"
    by (rule card_times_ok [OF ne cs ce])
  then have handler: "card_handler E observations = Inr [fallback_card cs ce]"
    by (simp add: card_handler_def)
  show ?thesis
  proof (cases "infer E (sent self) (CardPrompt observations)")
    case (Inl e)
    from generate_activity_cards_raise [OF fm Inl] handler show ?thesis
      by (simp add: fallback_card_def)
  next
    case (Inr response)
    show ?thesis
    proof (cases "card_response E observations response")
      case (Inl e)
      with generate_activity_cards_response [OF fm Inr] handler show ?thesis
        by (simp add: fallback_card_def)
    next
      case cards: (Inr cards)
      with generate_activity_cards_response [OF fm Inr] card_response_bounds [OF cards ct]
      show ?thesis by simp
    qed
  qed
qed

lemma generate_activity_cards_empty:
  "fst (generate_activity_cards E self []) = Inl (IndexError ''list index out of range'')"
  by (simp add: generate_activity_cards_def call_ollama_def card_handler_def card_times_def
        card_response_def Let_def split: sum.splits prod.splits)

lemma with_context_unformattable:
  assumes "\<not> list_all (formattable E) cobs \<or> \<not> list_all (formattable E) observations"
  shows "\<exists>e. generate_activity_cards_with_context E self observations cobs ccards =
               (Inl e, self)"
proof (cases "list_all (formattable E) cobs")
  case False
  then obtain e where "format_observations E cobs = Inl e"
    using format_observations_fail by blast
  then show ?thesis by (simp add: generate_activity_cards_with_context_def)
next
  case True
  then obtain ls where ls: "format_observations E cobs = Inr ls"
    using format_observations_ok by blast
  from True assms obtain e where "format_observations E observations = Inl e"
    using format_observations_fail by blast
  with ls show ?thesis by (simp add: generate_activity_cards_with_context_def)
qed

lemma with_context_failure:
  assumes ne: "observations \<noteq> []"
    and fm: "list_all (formattable E) observations"
    and cs: "fmt_time E (start_ts (hd observations)) = Inr cs"
    and ce: "fmt_time E (end_ts (last observations)) = Inr ce"
    and fc: "list_all (formattable E) cobs"
    and fail: "infer E (sent self) (ContextCardPrompt cobs ccards observations) = Inl e \<or>
         (\<exists>response e'. infer E (sent self) (ContextCardPrompt cobs ccards observations) =
              Inr response \<and>
            (parse_json_from_response E response (Some ExpList) = Inl e' \<or>
             context_response E response = Inl e'))"
  shows "fst (generate_activity_cards_with_context E self observations cobs ccards) =
           Inr [fallback_card cs ce]"
proof -
  from fm obtain ls where ls: "format_observations E observations = Inr ls"
    using format_observations_ok by blast
  from fc obtain cls where cls: "format_observations E cobs = Inr cls"
    using format_observations_ok by blast
  have "card_times E observations = Inr (cs, ce)"
    by (rule card_times_ok [OF ne cs ce])
  then have handler: "card_handler E observations = Inr [fallback_card cs ce]"
    by (simp add: card_handler_def)
  from fail show ?thesis
  proof (elim disjE exE conjE)
    assume "infer E (sent self) (ContextCardPrompt cobs ccards observations) = Inl e"
    with ls cls handler show ?thesis
      by (simp add: generate_activity_cards_with_context_def call_ollama_def)
  next
    fix response e'
    assume "infer E (sent self) (ContextCardPrompt cobs ccards observations) = Inr response"
      and "parse_json_from_response E response (Some ExpList) = Inl e'"
    with ls cls handler show ?thesis
      by (simp add: generate_activity_cards_with_context_def call_ollama_def
            context_response_def)
  next
    fix response e'
    assume "infer E (sent self) (ContextCardPrompt cobs ccards observations) = Inr response"
      and "context_response E response = Inl e'"
    with ls cls handler show ?thesis
      by (simp add: generate_activity_cards_with_context_def call_ollama_def)
  qed
qed

lemma with_context_success:
  assumes fm: "list_all (formattable E) observations"
    and fc: "list_all (formattable E) cobs"
    and "infer E (sent self) (ContextCardPrompt cobs ccards observations) = Inr response"
    and "parse_json_from_response E response (Some ExpList) = Inr (JArr [JObj kvs])"
    and "map_of kvs ''startTime'' = Some st" "map_of kvs ''endTime'' = Some en"
    and "map_of kvs ''category'' = Some ca" "map_of kvs ''title'' = Some ti"
    and "map_of kvs ''summary'' = Some su"
  shows "fst (generate_activity_cards_with_context E self observations cobs ccards) =
           Inr [\<lparr>start_time = st, end_time = en, category = ca, title = ti, summary = su\<rparr>]"
proof -
  from fm obtain ls where ls: "format_observations E observations = Inr ls"
    using format_observations_ok by blast
  from fc obtain cls where cls: "format_observations E cobs = Inr cls"
    using format_observations_ok by blast
  from ls cls assms(3-) show ?thesis
    by (simp add: generate_activity_cards_with_context_def call_ollama_def context_response_def
          card_of_data_def)
qed

text \<open>
  Claim C6, as the code has it. For a non-empty chunk whose instants can all be formatted,
  the card of \<^verbatim>\<open>_generate_activity_cards\<close> starts at the formatted start of the first
  observation of the chunk and ends at the formatted end of its last observation, whatever
  the service answers; the first start is the earliest start when the chunk is ordered by
  start, and the last end is the latest end when it is also ordered by end. When the instants
  of the context can be formatted too, the context-aware generator gives the same bounds on
  its fallback path, whatever the context is; on its success path the bounds of the card are
  the \<^verbatim>\<open>startTime\<close> and \<^verbatim>\<open>endTime\<close> of the answer. A chunk or a context with an instant
  that cannot be formatted makes the generator raise before any request is sent, and the
  plain generator raises on the empty chunk: no card is emitted then.
\<close>

theorem card_bounds_first_last:
  assumes "observations \<noteq> []"
    and "list_all (formattable E) observations"
    and "fmt_time E (start_ts (hd observations)) = Inr cs"
    and "fmt_time E (end_ts (last observations)) = Inr ce"
  shows "(\<exists>t s. fst (generate_activity_cards E self observations) =
            Inr [\<lparr>start_time = JStr cs, end_time = JStr ce,
                  category = JStr ''Work'', title = t, summary = s\<rparr>]) \<and>
         (sorted (map start_ts observations) \<longrightarrow>
            start_ts (hd observations) = earliest_start observations) \<and>
         (sorted (map end_ts observations) \<longrightarrow>
            end_ts (last observations) = latest_end observations) \<and>
         (list_all (formattable E) cobs \<and>
          (infer E (sent self) (ContextCardPrompt cobs ccards observations) = Inl e \<or>
           (\<exists>response e'. infer E (sent self) (ContextCardPrompt cobs ccards observations) =
                Inr response \<and>
              (parse_json_from_response E response (Some ExpList) = Inl e' \<or>
               context_response E response = Inl e'))) \<longrightarrow>
            fst (generate_activity_cards_with_context E self observations cobs ccards) =
              Inr [\<lparr>start_time = JStr cs, end_time = JStr ce,
                    category = JStr ''Work'',
                    title = JStr ''Activity Session'',
                    summary = JStr ''User engaged in various activities.''\<rparr>]) \<and>
         (list_all (formattable E) cobs \<and>
          infer E (sent self) (ContextCardPrompt cobs ccards observations) = Inr answer \<and>
          parse_json_from_response E answer (Some ExpList) = Inr (JArr [JObj kvs]) \<and>
          map_of kvs ''startTime'' = Some st \<and> map_of kvs ''endTime'' = Some en \<and>
          map_of kvs ''category'' = Some ca \<and> map_of kvs ''title'' = Some ti \<and>
          map_of kvs ''summary'' = Some su \<longrightarrow>
            fst (generate_activity_cards_with_context E self observations cobs ccards) =
              Inr [\<lparr>start_time = st, end_time = en, category = ca, title = ti,
                    summary = su\<rparr>]) \<and>
         (\<not> list_all (formattable E) chunk \<longrightarrow>
            (\<exists>e'. generate_activity_cards E self chunk = (Inl e', self))) \<and>
         (\<not> list_all (formattable E) prior \<or> \<not> list_all (formattable E) chunk \<longrightarrow>
            (\<exists>e'. generate_activity_cards_with_context E self chunk prior ccards =
                     (Inl e', self))) \<and>
         fst (generate_activity_cards E self []) = Inl (IndexError ''list index out of range'')"
proof (intro conjI impI)
  show "\<exists>t s. fst (generate_activity_cards E self observations) =
            Inr [\<lparr>start_time = JStr cs, end_time = JStr ce,
                  category = JStr ''Work'', title = t, summary = s\<rparr>]"
    by (rule generate_activity_cards_bounds [OF assms])
  show "start_ts (hd observations) = earliest_start observations"
    if "sorted (map start_ts observations)"
    using that by (rule first_start_earliest [OF assms(1)])
  show "end_ts (last observations) = latest_end observations"
    if "sorted (map end_ts observations)"
    using that by (rule last_end_latest [OF assms(1)])
  show "fst (generate_activity_cards_with_context E self observations cobs ccards) =
              Inr [\<lparr>start_time = JStr cs, end_time = JStr ce,
                    category = JStr ''Work'',
                    title = JStr ''Activity Session'',
                    summary = JStr ''User engaged in various activities.''\<rparr>]"
    if h: "list_all (formattable E) cobs \<and>
          (infer E (sent self) (ContextCardPrompt cobs ccards observations) = Inl e \<or>
           (\<exists>response e'. infer E (sent self) (ContextCardPrompt cobs ccards observations) =
                Inr response \<and>
              (parse_json_from_response E response (Some ExpList) = Inl e' \<or>
               context_response E response = Inl e')))"
    using with_context_failure [OF assms h [THEN conjunct1] h [THEN conjunct2]]
    by (simp add: fallback_card_def)
  show "fst (generate_activity_cards_with_context E self observations cobs ccards) =
              Inr [\<lparr>start_time = st, end_time = en, category = ca, title = ti,
                    summary = su\<rparr>]"
    if "list_all (formattable E) cobs \<and>
          infer E (sent self) (ContextCardPrompt cobs ccards observations) = Inr answer \<and>
          parse_json_from_response E answer (Some ExpList) = Inr (JArr [JObj kvs]) \<and>
          map_of kvs ''startTime'' = Some st \<and> map_of kvs ''endTime'' = Some en \<and>
          map_of kvs ''category'' = Some ca \<and> map_of kvs ''title'' = Some ti \<and>
          map_of kvs ''summary'' = Some su"
    using that with_context_success [OF assms(2)] by blast
  show "\<exists>e'. generate_activity_cards E self chunk = (Inl e', self)"
    if "\<not> list_all (formattable E) chunk"
    using that by (rule generate_activity_cards_unformattable)
  show "\<exists>e'. generate_activity_cards_with_context E self chunk prior ccards = (Inl e', self)"
    if "\<not> list_all (formattable E) prior \<or> \<not> list_all (formattable E) chunk"
    using that by (rule with_context_unformattable)
  show "fst (generate_activity_cards E self []) = Inl (IndexError ''list index out of range'')"
    by (rule generate_activity_cards_empty)
qed

theorem card_bounds_first_last_witness:
  "map_sum id (map start_time)
     (fst (generate_activity_cards (stub_env scenario_a_client scenario_a_table) new_processor
             two_chunks)) = Inr [JStr ''9:00 AM''] \<and>
   map_sum id (map end_time)
     (fst (generate_activity_cards (stub_env scenario_a_client scenario_a_table) new_processor
             two_chunks)) = Inr [JStr ''9:30 AM''] \<and>
   earliest_start two_chunks = 32400 \<and> latest_end two_chunks = 34200 \<and>
   fst (generate_activity_cards_with_context (stub_env failing_client []) new_processor
          two_chunks [] []) =
     Inr [\<lparr>start_time = JStr ''9:00 AM'', end_time = JStr ''9:30 AM'', category = JStr ''Work'',
           title = JStr ''Activity Session'',
           summary = JStr ''User engaged in various activities.''\<rparr>] \<and>
   fst (generate_activity_cards_with_context
          (stub_env (text_client context_card_text) [(context_card_text, context_card_json)])
          new_processor two_chunks [] []) =
     Inr [a_card ''8:00 AM'' ''8:30 AM'' ''Worked on the parser'' ''Edited parser.py.''] \<and>
   isl (fst (generate_activity_cards (stub_env failing_client []) new_processor
               [an_observation 32400 253402300800 ''Editing main.py''])) \<and>
   snd (generate_activity_cards (stub_env failing_client []) new_processor
          [an_observation 32400 253402300800 ''Editing main.py'']) = new_processor \<and>
   isl (fst (generate_activity_cards_with_context (stub_env failing_client []) new_processor
               two_chunks [an_observation 32400 253402300800 ''Editing main.py''] [])) \<and>
   snd (generate_activity_cards_with_context (stub_env failing_client []) new_processor
          two_chunks [an_observation 32400 253402300800 ''Editing main.py''] []) =
     new_processor"
proof -
  let ?G = "stub_env (text_client context_card_text) [(context_card_text, context_card_json)]"
  let ?kvs = "[(''startTime'', JStr ''8:00 AM''), (''endTime'', JStr ''8:30 AM''),
               (''category'', JStr ''Work''), (''title'', JStr ''Worked on the parser''),
               (''summary'', JStr ''Edited parser.py.'')]"
  let ?E = "stub_env scenario_a_client scenario_a_table"
  let ?F = "stub_env failing_client []"
  let ?bad = "[an_observation 32400 253402300800 ''Editing main.py'']"
  have g: "infer ?G (sent new_processor) (ContextCardPrompt [] [] two_chunks) =
             Inr context_card_text \<and>
           parse_json_from_response ?G context_card_text (Some ExpList) = Inr (JArr [JObj ?kvs])"
    by code_simp
  have g': "list_all (formattable ?G) [] \<and>
           infer ?G (sent new_processor) (ContextCardPrompt [] [] two_chunks) =
             Inr context_card_text \<and>
           parse_json_from_response ?G context_card_text (Some ExpList) =
             Inr (JArr [JObj ?kvs]) \<and>
           map_of ?kvs ''startTime'' = Some (JStr ''8:00 AM'') \<and>
           map_of ?kvs ''endTime'' = Some (JStr ''8:30 AM'') \<and>
           map_of ?kvs ''category'' = Some (JStr ''Work'') \<and>
           map_of ?kvs ''title'' = Some (JStr ''Worked on the parser'') \<and>
           map_of ?kvs ''summary'' = Some (JStr ''Edited parser.py.'')"
    using g by simp
  have ne: "two_chunks \<noteq> []" by (simp add: two_chunks_def)
  have fm: "list_all (formattable ?E) two_chunks" "list_all (formattable ?F) two_chunks"
    "list_all (formattable ?G) two_chunks"
    by code_simp+
  have t: "fmt_time ?E (start_ts (hd two_chunks)) = Inr ''9:00 AM''"
          "fmt_time ?E (end_ts (last two_chunks)) = Inr ''9:30 AM''"
          "fmt_time ?F (start_ts (hd two_chunks)) = Inr ''9:00 AM''"
          "fmt_time ?F (end_ts (last two_chunks)) = Inr ''9:30 AM''"
          "fmt_time ?G (start_ts (hd two_chunks)) = Inr ''9:00 AM''"
          "fmt_time ?G (end_ts (last two_chunks)) = Inr ''9:30 AM''"
          "start_ts (hd two_chunks) = 32400" "end_ts (last two_chunks) = 34200"
    by code_simp+
  have s: "sorted (map start_ts two_chunks)" "sorted (map end_ts two_chunks)"
    by (simp_all add: two_chunks_def an_observation_def)
  have f: "list_all (formattable ?F) [] \<and>
           (infer ?F (sent new_processor) (ContextCardPrompt [] [] two_chunks) =
              Inl (RequestException ''connection refused'') \<or>
            (\<exists>response e'. infer ?F (sent new_processor) (ContextCardPrompt [] [] two_chunks) =
                Inr response \<and>
               (parse_json_from_response ?F response (Some ExpList) = Inl e' \<or>
                context_response ?F response = Inl e')))"
    by (simp add: stub_env_def failing_client_def)
  have u: "\<not> list_all (formattable ?F) ?bad"
    by code_simp
  note a = card_bounds_first_last [OF ne fm(1) t(1) t(2), of new_processor]
  note b = card_bounds_first_last [OF ne fm(2) t(3) t(4),
      where self = new_processor and cobs = "[]" and ccards = "[]" and chunk = ?bad
        and prior = ?bad and e = "RequestException ''connection refused''"]
  from a [THEN conjunct1]
  have c1: "map_sum id (map start_time) (fst (generate_activity_cards ?E new_processor two_chunks))
              = Inr [JStr ''9:00 AM'']"
       "map_sum id (map end_time) (fst (generate_activity_cards ?E new_processor two_chunks))
              = Inr [JStr ''9:30 AM'']"
    by auto
  from a [THEN conjunct2, THEN conjunct1, rule_format, OF s(1)] t(7)
  have c2: "earliest_start two_chunks = 32400" by simp
  from a [THEN conjunct2, THEN conjunct2, THEN conjunct1, rule_format, OF s(2)] t(8)
  have c3: "latest_end two_chunks = 34200" by simp
  from b [THEN conjunct2, THEN conjunct2, THEN conjunct2, THEN conjunct1, rule_format, OF f]
  have c4: "fst (generate_activity_cards_with_context ?F new_processor two_chunks [] []) =
     Inr [\<lparr>start_time = JStr ''9:00 AM'', end_time = JStr ''9:30 AM'', category = JStr ''Work'',
           title = JStr ''Activity Session'',
           summary = JStr ''User engaged in various activities.''\<rparr>]"
    by simp
  from card_bounds_first_last [OF ne fm(3) t(5) t(6), of new_processor, THEN conjunct2,
      THEN conjunct2, THEN conjunct2, THEN conjunct2, THEN conjunct1, rule_format, OF g']
  have c5: "fst (generate_activity_cards_with_context ?G new_processor two_chunks [] []) =
     Inr [a_card ''8:00 AM'' ''8:30 AM'' ''Worked on the parser'' ''Edited parser.py.'']"
    by (simp add: a_card_def)
  from b [THEN conjunct2, THEN conjunct2, THEN conjunct2, THEN conjunct2, THEN conjunct2,
      THEN conjunct1, rule_format, OF u]
  have c6: "isl (fst (generate_activity_cards ?F new_processor ?bad))"
           "snd (generate_activity_cards ?F new_processor ?bad) = new_processor"
    by auto
  have u': "\<not> list_all (formattable ?F) ?bad \<or> \<not> list_all (formattable ?F) two_chunks"
    using u by simp
  from card_bounds_first_last [OF ne fm(2) t(3) t(4),
      where self = new_processor and ccards = "[]" and chunk = two_chunks and prior = ?bad,
      THEN conjunct2, THEN conjunct2, THEN conjunct2, THEN conjunct2, THEN conjunct2,
      THEN conjunct2, THEN conjunct1, rule_format, OF u']
  have c7: "isl (fst (generate_activity_cards_with_context ?F new_processor two_chunks ?bad []))"
           "snd (generate_activity_cards_with_context ?F new_processor two_chunks ?bad []) =
              new_processor"
    by auto
  from c1 c2 c3 c4 c5 c6 c7 show ?thesis by (intro conjI)
qed

theorem card_bounds_counterexample:
  "map_sum id (map end_time)
     (fst (generate_activity_cards (stub_env scenario_a_client scenario_a_table) new_processor
             nested_chunk)) \<noteq> Inr [JStr (utc_clock (latest_end nested_chunk))] \<and>
   map_sum id (map start_time)
     (fst (generate_activity_cards_with_context
             (stub_env (text_client context_card_text) [(context_card_text, context_card_json)])
             new_processor one_chunk [] [])) \<noteq> Inr [JStr (utc_clock (earliest_start one_chunk))] \<and>
   map_sum id (map end_time)
     (fst (generate_activity_cards (stub_env scenario_a_client scenario_a_table) new_processor
             nested_chunk)) = Inr [JStr ''9:10 AM''] \<and>
   JStr (utc_clock (latest_end nested_chunk)) = JStr ''9:15 AM'' \<and>
   map_sum id (map start_time)
     (fst (generate_activity_cards_with_context
             (stub_env (text_client context_card_text) [(context_card_text, context_card_json)])
             new_processor one_chunk [] [])) = Inr [JStr ''8:00 AM''] \<and>
   JStr (utc_clock (earliest_start one_chunk)) = JStr ''9:00 AM'' \<and>
   map_sum id (map end_time)
     (fst (generate_activity_cards_with_context
             (stub_env (text_client context_card_text) [(context_card_text, context_card_json)])
             new_processor one_chunk [] [])) = Inr [JStr ''8:30 AM''] \<and>
   JStr (utc_clock (latest_end one_chunk)) = JStr ''9:15 AM''"
  by code_simp

end
